theory Spec2Isabelle
  imports Main "HOL-Library.AList" "HOL-Library.Sublist" "HOL-Library.Multiset"
begin

section \<open>Go strings\<close>

text \<open>
  A Go string is a sequence of bytes, here a \<open>string\<close> (a list of 8-bit characters).
  The functions of package \<open>strings\<close> that \<open>internal/git.go\<close> calls are written out
  as the standard library defines them.
\<close>

type_synonym bytes = string

definition HasPrefix :: "string \<Rightarrow> string \<Rightarrow> bool" where
  \<comment> \<open>\<open>len(s) >= len(prefix) && s[0:len(prefix)] == prefix\<close>\<close>
  "HasPrefix s pre = (length pre \<le> length s \<and> take (length pre) s = pre)"

definition TrimPrefix :: "string \<Rightarrow> string \<Rightarrow> string" where
  \<comment> \<open>\<open>if HasPrefix(s, prefix) { return s[len(prefix):] }; return s\<close>\<close>
  "TrimPrefix s pre = (if HasPrefix s pre then drop (length pre) s else s)"

fun Split :: "string \<Rightarrow> char \<Rightarrow> string list" where
  \<comment> \<open>\<open>strings.Split(s, sep)\<close> for a separator of one byte: all the fields, empty ones too\<close>
  "Split [] sep = [[]]"
| "Split (c # cs) sep =
     (if c = sep then [] # Split cs sep
      else (case Split cs sep of [] \<Rightarrow> [[c]] | l # ls \<Rightarrow> (c # l) # ls))"

fun SplitN :: "string \<Rightarrow> char \<Rightarrow> nat \<Rightarrow> string list" where
  \<comment> \<open>\<open>strings.SplitN(s, sep, n)\<close> for a separator of one byte and \<open>n >= 0\<close>:
      at most \<open>n\<close> fields, the last one the unsplit remainder\<close>
  "SplitN s sep 0 = []"
| "SplitN s sep (Suc 0) = [s]"
| "SplitN s sep (Suc (Suc n)) =
     (if sep \<in> set s
      then takeWhile (\<lambda>c. c \<noteq> sep) s # SplitN (tl (dropWhile (\<lambda>c. c \<noteq> sep) s)) sep (Suc n)
      else [s])"

definition spaceRunes :: "string list" where
  \<comment> \<open>the UTF-8 encodings of the code points for which \<open>unicode.IsSpace\<close> holds:
      U+0009..U+000D, U+0020, U+0085, U+00A0, U+1680, U+2000..U+200A, U+2028, U+2029,
      U+202F, U+205F, U+3000\<close>
  "spaceRunes =
     [[CHR 0x09], [CHR 0x0A], [CHR 0x0B], [CHR 0x0C], [CHR 0x0D], [CHR 0x20],
      [CHR 0xC2, CHR 0x85], [CHR 0xC2, CHR 0xA0],
      [CHR 0xE1, CHR 0x9A, CHR 0x80],
      [CHR 0xE2, CHR 0x80, CHR 0x80], [CHR 0xE2, CHR 0x80, CHR 0x81],
      [CHR 0xE2, CHR 0x80, CHR 0x82], [CHR 0xE2, CHR 0x80, CHR 0x83],
      [CHR 0xE2, CHR 0x80, CHR 0x84], [CHR 0xE2, CHR 0x80, CHR 0x85],
      [CHR 0xE2, CHR 0x80, CHR 0x86], [CHR 0xE2, CHR 0x80, CHR 0x87],
      [CHR 0xE2, CHR 0x80, CHR 0x88], [CHR 0xE2, CHR 0x80, CHR 0x89],
      [CHR 0xE2, CHR 0x80, CHR 0x8A],
      [CHR 0xE2, CHR 0x80, CHR 0xA8], [CHR 0xE2, CHR 0x80, CHR 0xA9],
      [CHR 0xE2, CHR 0x80, CHR 0xAF], [CHR 0xE2, CHR 0x81, CHR 0x9F],
      [CHR 0xE3, CHR 0x80, CHR 0x80]]"

fun TrimLeft :: "string list \<Rightarrow> string \<Rightarrow> string" where
  \<comment> \<open>drops the runes of \<open>ws\<close> the string starts with, one after the other\<close>
  "TrimLeft ws [] = []"
| "TrimLeft ws (c # cs) =
     (case find (\<lambda>w. prefix w (c # cs)) ws of
        None \<Rightarrow> c # cs
      | Some w \<Rightarrow> TrimLeft ws (drop (length w - 1) cs))"

definition TrimSpace :: "string \<Rightarrow> string" where
  \<comment> \<open>\<open>strings.TrimSpace\<close>: leading, then trailing white space removed, as Unicode defines
      it. Decoding a string from its end yields a white-space rune exactly when the
      string ends with one of the encodings above, so the right end is trimmed on the
      reversed string.\<close>
  "TrimSpace s = rev (TrimLeft (map rev spaceRunes) (rev (TrimLeft spaceRunes s)))"

fun Itoa_nat :: "nat \<Rightarrow> string" where
  "Itoa_nat n =
     (if n < 10 then [''0123456789'' ! n]
      else Itoa_nat (n div 10) @ [''0123456789'' ! (n mod 10)])"

definition Itoa :: "int \<Rightarrow> string" where
  \<comment> \<open>the verb \<open>%d\<close> of \<open>fmt.Sprintf\<close>: decimal, with a minus sign when negative\<close>
  "Itoa i = (if i < 0 then CHR ''-'' # Itoa_nat (nat (- i)) else Itoa_nat (nat i))"

section \<open>Paths of the worktree filesystem\<close>

text \<open>
  \<open>RetrieveSource\<close> gives the worktree the filesystem \<open>memfs.New()\<close> of go-billy: an
  in-memory store behind a chroot helper rooted at \<open>/\<close>. Every method of the helper
  first turns the name it is given into the path the store keeps: it refuses a name
  whose cleaned form starts with \<open>../\<close> (\<open>billy.ErrCrossedBoundary\<close>) and otherwise
  joins the name to the root with \<open>filepath.Join\<close>, which cleans the result. So
  \<open>SOURCES/a.tar.gz\<close> and \<open>/SOURCES/a.tar.gz\<close> are one file. \<open>Clean\<close> is
  \<open>filepath.Clean\<close> for the separator \<open>/\<close>.
\<close>

fun cleanElems :: "bool \<Rightarrow> string list \<Rightarrow> string list \<Rightarrow> string list" where
  \<comment> \<open>the elements written so far and those still to read: an empty element and \<open>.\<close>
      are dropped; \<open>..\<close> takes back the last element written unless there is none or it
      is \<open>..\<close> itself, and is then kept only when the path is not rooted\<close>
  "cleanElems rooted out [] = out"
| "cleanElems rooted out (e # es) =
     (if e = [] \<or> e = ''.'' then cleanElems rooted out es
      else if e = ''..'' then
        (if out \<noteq> [] \<and> last out \<noteq> ''..'' then cleanElems rooted (butlast out) es
         else if \<not> rooted then cleanElems rooted (out @ [''..'']) es
         else cleanElems rooted out es)
      else cleanElems rooted (out @ [e]) es)"

fun joinElems :: "string list \<Rightarrow> string" where
  "joinElems [] = []"
| "joinElems [e] = e"
| "joinElems (e # es) = e @ CHR ''/'' # joinElems es"

definition Clean :: "string \<Rightarrow> string" where
  "Clean path =
     (if path = [] then ''.''
      else
        (let rooted = (hd path = CHR ''/'');
             out = cleanElems rooted [] (Split path (CHR ''/'')) in
         if rooted then CHR ''/'' # joinElems out
         else if out = [] then ''.'' else joinElems out))"

definition memfsPath :: "string \<Rightarrow> string option" where
  \<comment> \<open>\<open>underlyingPath\<close> of the chroot helper with the root \<open>/\<close>:
      \<open>Join("/", name)\<close> is \<open>Clean("/" + "/" + name)\<close>\<close>
  "memfsPath name =
     (if HasPrefix (Clean name) ''../'' then None
      else Some (Clean (''/'' @ ''/'' @ name)))"

section \<open>Errors\<close>

datatype error =
    Fatal string  \<comment> \<open>\<open>log.Fatalf\<close>: the message is logged and the process exits\<close>
  | Panic string  \<comment> \<open>a run-time panic of Go\<close>

section \<open>The import-tag pattern\<close>

text \<open>
  \<open>tagImportRegex\<close> is a package-level regular expression that \<open>internal/git.go\<close> uses
  and does not declare. \<open>FindStringSubmatch\<close> returns \<open>nil\<close> when the pattern matches
  nowhere in the string, and otherwise the text of the leftmost match followed by the
  text of each group; \<open>MatchString\<close> reports whether there is a match. The code reads
  the groups 2 and 3 of a match. The pattern is a parameter of every function that
  uses it.
\<close>

record submatch =
  whole :: string
  group1 :: string
  group2 :: string
  group3 :: string

type_synonym regexp = "string \<Rightarrow> submatch option"

definition FindStringSubmatch :: "regexp \<Rightarrow> string \<Rightarrow> submatch option" where
  "FindStringSubmatch re s = re s"

definition MatchString :: "regexp \<Rightarrow> string \<Rightarrow> bool" where
  "MatchString re s = (re s \<noteq> None)"

text \<open>
  Modelled from the spec: the pattern \<open>tagImportRegex\<close> itself, which is declared
  outside the source files at hand. Section 6 of the specification gives import tags
  the shape \<open>refs/tags/imports/<prefix><version><separator><distinguishingComponent>-<release>\<close>,
  and section 8 reads \<open>pkgname\<close> out of \<open>refs/tags/imports/c9s1.pkgname-3\<close>: the
  separator is a dot, the release follows the last hyphen. Group 3 is the component
  between the separator and the release, the package name of section 4.4. Group 2,
  which \<open>WriteSource\<close> uses as the name of the upstream branch, is the part before
  the separator. Group 1 is the name of the tag.
\<close>

definition specTagImportRegex :: regexp where
  \<comment> \<open>Modelled from the spec: the pattern \<open>tagImportRegex\<close>, after the naming convention
      of section 6\<close>
  "specTagImportRegex s =
     (if HasPrefix s ''refs/tags/imports/'' then
        (let rest = drop (length ''refs/tags/imports/'') s in
         if CHR ''.'' \<in> set rest then
           (let branch = takeWhile (\<lambda>c. c \<noteq> CHR ''.'') rest;
                nvr = tl (dropWhile (\<lambda>c. c \<noteq> CHR ''.'') rest) in
            if CHR ''-'' \<in> set nvr then
              Some \<lparr>whole = s, group1 = ''imports/'' @ rest, group2 = branch,
                    group3 = rev (tl (dropWhile (\<lambda>c. c \<noteq> CHR ''-'') (rev nvr)))\<rparr>
            else None)
         else None)
      else None)"

section \<open>ImportName\<close>

text \<open>
  Of \<open>data.ModeData\<close>, \<open>ImportName\<close> reads the field \<open>TagBranch\<close> only.
  \<open>MatchString\<close> holds exactly when \<open>FindStringSubmatch\<close> is not \<open>nil\<close>, so the
  test and the extraction are one case distinction.
\<close>

definition ImportName :: "regexp \<Rightarrow> string \<Rightarrow> string" where
  "ImportName re TagBranch =
     (case FindStringSubmatch re TagBranch of
        Some match \<Rightarrow> group3 match
      | None \<Rightarrow> TrimPrefix TagBranch ''refs/heads/'')"

section \<open>RetrieveSource: resolving the import references\<close>

text \<open>
  A \<open>time.Time\<close> is an instant, here an integer (a count of clock ticks);
  \<open>After\<close> is \<open>>\<close> and \<open>Before\<close> is \<open><\<close>. A \<open>plumbing.Hash\<close> is the number
  its twenty bytes spell, \<open>IsZero\<close> is \<open>= 0\<close>.
\<close>

record remoteTarget =
  remote :: string
  when' :: int

record Signature =
  When :: int

record Tag =
  Name :: string
  Tagger :: Signature

record Commit =
  Committer :: Signature

record Reference =
  refName :: string
  refHash :: nat

record ProcessData =
  RpmLocation :: string
  ImportBranchPrefix :: string
  Version :: int
  NoStorageDownload :: bool
  BlobStorage_Read :: "string \<Rightarrow> bytes option"  \<comment> \<open>\<open>pd.BlobStorage.Read\<close>, \<open>None\<close> for \<open>nil\<close>\<close>

datatype event =
    Log string               \<comment> \<open>a line of \<open>log.Printf\<close> (the text of an error value left out)\<close>
  | BlobStorage_Read_call string  \<comment> \<open>\<open>pd.BlobStorage.Read(hash)\<close> was called\<close>
  | Client_Do string         \<comment> \<open>\<open>client.Do(req)\<close> was called for a GET of this URL\<close>

text \<open>
  \<open>latestTags\<close> is a Go map from string to \<open>*remoteTarget\<close>: an association list
  with one pair for each key. The order in which \<open>range\<close> visits a map is not fixed;
  \<open>rangeOrder\<close> below chooses it.
\<close>

type_synonym latestTags = "(string \<times> remoteTarget) list"

definition tagAdd :: "regexp \<Rightarrow> ProcessData \<Rightarrow> latestTags \<Rightarrow> Tag \<Rightarrow> latestTags" where
  "tagAdd re pd latestTags tag =
     (if HasPrefix (Name tag) (''imports/'' @ ImportBranchPrefix pd @ Itoa (Version pd)) then
        (let refSpec = ''refs/tags/'' @ Name tag in
         case FindStringSubmatch re refSpec of
           None \<Rightarrow> latestTags
         | Some match \<Rightarrow>
             if (case map_of latestTags (group2 match) of
                   None \<Rightarrow> False
                 | Some existing \<Rightarrow> when' existing > When (Tagger tag))
             then latestTags
             else AList.update (group2 match)
                    \<lparr>remote = refSpec, when' = When (Tagger tag)\<rparr> latestTags)
      else latestTags)"

text \<open>
  The words of the claims about \<open>tagAdd\<close>: a tag is a candidate for the component
  \<open>k\<close> when its name has the prefix \<open>imports/<prefix><version>\<close> and the pattern
  matches its reference name with \<open>k\<close> as group 2; the component of a reference name
  is group 2 of its match.
\<close>

definition candidate :: "regexp \<Rightarrow> ProcessData \<Rightarrow> string \<Rightarrow> Tag \<Rightarrow> bool" where
  "candidate re pd k tag =
     (HasPrefix (Name tag) (''imports/'' @ ImportBranchPrefix pd @ Itoa (Version pd)) \<and>
      (case FindStringSubmatch re (''refs/tags/'' @ Name tag) of
         None \<Rightarrow> False
       | Some match \<Rightarrow> group2 match = k))"

definition component :: "regexp \<Rightarrow> string \<Rightarrow> string option" where
  "component re ref = map_option group2 (FindStringSubmatch re ref)"

definition targetOf :: "Tag \<Rightarrow> remoteTarget" where
  "targetOf tag = \<lparr>remote = ''refs/tags/'' @ Name tag, when' = When (Tagger tag)\<rparr>"

definition latest :: "regexp \<Rightarrow> ProcessData \<Rightarrow> string \<Rightarrow> Tag list \<Rightarrow> Tag \<Rightarrow> bool" where
  \<comment> \<open>\<open>t\<close> is one of the tags, a candidate for \<open>k\<close>, and no candidate for \<open>k\<close> among
      the tags has a later timestamp\<close>
  "latest re pd k tags t =
     (t \<in> set tags \<and> candidate re pd k t \<and>
      (\<forall>t'\<in>set tags. candidate re pd k t' \<longrightarrow> When (Tagger t') \<le> When (Tagger t)))"

text \<open>The answers of go-git to one call of \<open>RetrieveSource\<close>.\<close>

record GitEnv =
  Init_err :: bool
  Worktree_err :: bool
  CreateRemote_err :: bool
  Fetch_err :: bool
  TagObjects :: "Tag list option"        \<comment> \<open>the tag objects in the order \<open>ForEach\<close> visits them\<close>
  Remote_List :: "Reference list option"   \<comment> \<open>\<open>remote.List\<close>\<close>
  CommitObject :: "nat \<Rightarrow> Commit option"
  rangeOrder :: "remoteTarget list \<Rightarrow> remoteTarget list"
    \<comment> \<open>the order in which \<open>range latestTags\<close> visits the values\<close>

fun listLoop ::
  "regexp \<Rightarrow> ProcessData \<Rightarrow> (nat \<Rightarrow> Commit option) \<Rightarrow> event list \<times> latestTags
     \<Rightarrow> Reference list \<Rightarrow> event list \<times> latestTags" where
  \<comment> \<open>the loop \<open>for _, ref := range list\<close> of the fallback\<close>
  "listLoop re pd commitObject (lg, latestTags) [] = (lg, latestTags)"
| "listLoop re pd commitObject (lg, latestTags) (ref # list) =
     (if refHash ref = 0 then listLoop re pd commitObject (lg, latestTags) list
      else
        (case commitObject (refHash ref) of
           None \<Rightarrow>
             listLoop re pd commitObject
               (lg @ [Log (''could not get commit object for ref '' @ refName ref)], latestTags)
               list
         | Some commit \<Rightarrow>
             listLoop re pd commitObject
               (lg, tagAdd re pd latestTags
                      \<lparr>Name = TrimPrefix (refName ref) ''refs/tags/'', Tagger = Committer commit\<rparr>)
               list))"

text \<open>
  The words of the claim about the fallback: the tags it hands to \<open>tagAdd\<close>, one for
  each listed reference with a hash other than zero and a readable commit, and the
  lines it logs, one for each reference whose commit cannot be read.
\<close>

definition listedTags :: "(nat \<Rightarrow> Commit option) \<Rightarrow> Reference list \<Rightarrow> Tag list" where
  "listedTags commitObject list =
     List.map_filter
       (\<lambda>ref. if refHash ref = 0 then None
              else map_option
                     (\<lambda>commit. \<lparr>Name = TrimPrefix (refName ref) ''refs/tags/'',
                                Tagger = Committer commit\<rparr>)
                     (commitObject (refHash ref)))
       list"

definition listedFailures :: "(nat \<Rightarrow> Commit option) \<Rightarrow> Reference list \<Rightarrow> event list" where
  "listedFailures commitObject list =
     map (\<lambda>ref. Log (''could not get commit object for ref '' @ refName ref))
       (filter (\<lambda>ref. refHash ref \<noteq> 0 \<and> commitObject (refHash ref) = None) list)"

definition resolveTags ::
  "regexp \<Rightarrow> ProcessData \<Rightarrow> GitEnv \<Rightarrow> Tag list \<Rightarrow> error + event list \<times> latestTags" where
  \<comment> \<open>\<open>tagIter.ForEach(tagAdd)\<close>, then the fallback when \<open>len(latestTags) == 0\<close>\<close>
  "resolveTags re pd env tags =
     (let latestTags = foldl (tagAdd re pd) [] tags in
      if length latestTags = 0 then
        (case Remote_List env of
           None \<Rightarrow> Inl (Fatal ''could not list upstream'')
         | Some list \<Rightarrow> Inr (listLoop re pd (CommitObject env) ([], latestTags) list))
      else Inr ([], latestTags))"

definition RetrieveSource ::
  "regexp \<Rightarrow> ProcessData \<Rightarrow> GitEnv \<Rightarrow> error + event list \<times> string list" where
  \<comment> \<open>returns the log and the field \<open>Branches\<close> of the \<open>ModeData\<close>. \<open>sort.Sort\<close> is not
      stable and the order of \<open>range\<close> is free, so the result is a stable sort of the
      values in the order \<open>rangeOrder\<close> chooses.\<close>
  "RetrieveSource re pd env =
     (if Init_err env then Inl (Fatal ''could not init git Repo'')
      else if Worktree_err env then Inl (Fatal ''could not get Worktree'')
      else if CreateRemote_err env then Inl (Fatal ''could not create remote'')
      else if Fetch_err env then Inl (Fatal ''could not fetch upstream'')
      else
        (case TagObjects env of
           None \<Rightarrow> Inl (Fatal ''could not get tag objects'')
         | Some tags \<Rightarrow>
             (case resolveTags re pd env tags of
                Inl e \<Rightarrow> Inl e
              | Inr (lg, latestTags) \<Rightarrow>
                  (let branches = rangeOrder env (map snd latestTags);
                       lg' = lg @ map (\<lambda>branch. Log (''tag: '' @ TrimPrefix (remote branch) ''refs/tags/''))
                                    branches;
                       sortedBranches = map remote (sort_key when' branches)
                   in Inr (lg', sortedBranches)))))"

section \<open>WriteSource: acquiring the blobs of the metadata file\<close>

type_synonym HashFunction = string
  \<comment> \<open>the \<open>hash.Hash\<close> that \<open>CompareHash\<close> returns, by the name of its algorithm\<close>

record IgnoredSource =
  IgnoredSource_Name :: string
  HashFunction :: HashFunction

text \<open>
  The part of \<open>data.ModeData\<close> that \<open>WriteSource\<close> and \<open>PostProcess\<close> use. The
  filesystem of the worktree is a map to file contents from the paths under which the
  filesystem keeps the files, not from the names the program passes: a name reaches
  its file through \<open>underlyingPath\<close> below. The map holds the files; a directory is
  not an entry of it. \<open>Staged\<close> is the index, as \<open>Worktree.Add(".")\<close> leaves it, keyed
  like the tree. A Go map yields \<open>nil\<close> for a key it does not hold,
  which is \<open>None\<close> here. \<open>trace\<close> is not a field of the Go struct: it records, in order,
  the log lines and the calls made on the blob store and the HTTP client.
\<close>

record ModeData =
  Worktree :: "string \<rightharpoonup> bytes"
  Staged :: "string \<rightharpoonup> bytes"
  RpmFile_Name :: string
  TagBranch :: string
  SourcesToIgnore :: "IgnoredSource list"
  BlobCache :: "string \<rightharpoonup> bytes"
  trace :: "event list"

datatype fetch_result = FetchOk | AlreadyUpToDate | FetchErr

datatype http_result =
    NewRequest_err   \<comment> \<open>\<open>http.NewRequest\<close> fails\<close>
  | Do_err           \<comment> \<open>\<open>client.Do\<close> fails\<close>
  | ReadAll_body_err \<comment> \<open>reading the body fails\<close>
  | Close_err        \<comment> \<open>closing the body fails\<close>
  | Body bytes       \<comment> \<open>the body read in full\<close>

text \<open>
  The answers of the collaborators to one call of \<open>WriteSource\<close> or \<open>PostProcess\<close>,
  together with the two items of the package that \<open>internal/git.go\<close> uses and does
  not declare: the pattern \<open>tagImportRegex\<close> and the function \<open>CompareHash\<close>, which
  returns the hash function when the digest of the bytes is the declared checksum and
  \<open>nil\<close> otherwise.
\<close>

record World =
  tagImportRegex :: regexp
  CompareHash :: "bytes \<Rightarrow> string \<Rightarrow> HashFunction option"
  Remote_err :: bool
  Fetch :: "string \<Rightarrow> fetch_result"       \<comment> \<open>by refspec\<close>
  Checkout :: "string \<Rightarrow> (string \<rightharpoonup> bytes) \<Rightarrow> (string \<rightharpoonup> bytes) option"
    \<comment> \<open>the files after a forced checkout of the branch, \<open>None\<close> when it fails\<close>
  Add_err :: bool
  ReadAll_err :: bool
  Http :: "string \<Rightarrow> http_result"          \<comment> \<open>a GET of the URL\<close>
  underlyingPath :: "string \<Rightarrow> string option"
    \<comment> \<open>the path under which the filesystem keeps the file that a name denotes,
        \<open>None\<close> when it refuses the name\<close>
  Create_err :: "string \<Rightarrow> bool"
  Write_err :: "string \<Rightarrow> bool"
  Remove_err :: "string \<Rightarrow> bool"

definition lookupFile :: "World \<Rightarrow> ModeData \<Rightarrow> string \<Rightarrow> bytes option" where
  \<comment> \<open>the content of the file that a name denotes: what \<open>Open\<close> reads and \<open>Stat\<close>
      finds; \<open>None\<close> when the name is refused or there is no such file\<close>
  "lookupFile w md name =
     (case underlyingPath w name of None \<Rightarrow> None | Some file \<Rightarrow> Worktree md file)"

definition Create :: "World \<Rightarrow> string \<Rightarrow> string option" where
  \<comment> \<open>the path of the file that \<open>Create\<close> makes or truncates, \<open>None\<close> when it fails\<close>
  "Create w name = (if Create_err w name then None else underlyingPath w name)"

definition logf :: "string \<Rightarrow> ModeData \<Rightarrow> ModeData" where
  "logf msg md = md\<lparr>trace := trace md @ [Log msg]\<rparr>"

definition sourceURL :: "string \<Rightarrow> string \<Rightarrow> string \<Rightarrow> string" where
  "sourceURL name branchName hash =
     ''https://git.centos.org/sources/'' @ name @ ''/'' @ branchName @ ''/'' @ hash"

definition download ::
  "World \<Rightarrow> string \<Rightarrow> ModeData \<Rightarrow> string \<Rightarrow> error \<times> ModeData + bytes \<times> ModeData" where
  \<comment> \<open>the origin tier: lines 224 to 245\<close>
  "download w branchName md hash =
     (let url = sourceURL (RpmFile_Name md) branchName hash;
          md1 = logf (''downloading '' @ url) md in
      case Http w url of
        NewRequest_err \<Rightarrow> Inl (Fatal ''could not create new http request'', md1)
      | res \<Rightarrow>
          (let md2 = md1\<lparr>trace := trace md1 @ [Client_Do url]\<rparr> in
           case res of
             Do_err \<Rightarrow> Inl (Fatal ''could not download dist-git file'', md2)
           | ReadAll_body_err \<Rightarrow> Inl (Fatal ''could not read the whole dist-git file'', md2)
           | Close_err \<Rightarrow> Inl (Fatal ''could not close body handle'', md2)
           | Body body \<Rightarrow> Inr (body, md2)))"

definition acquire ::
  "World \<Rightarrow> ProcessData \<Rightarrow> string \<Rightarrow> ModeData \<Rightarrow> string \<Rightarrow> error \<times> ModeData + bytes \<times> ModeData" where
  \<comment> \<open>lines 213 to 249: cache, blob store, origin; the bytes of the last two are cached\<close>
  "acquire w pd branchName md hash =
     (case BlobCache md hash of
        Some cached \<Rightarrow> Inr (cached, logf (''retrieving '' @ hash @ '' from cache'') md)
      | None \<Rightarrow>
          (let fromBlobStorage = BlobStorage_Read pd hash;
               md1 = md\<lparr>trace := trace md @ [BlobStorage_Read_call hash]\<rparr> in
           case (if fromBlobStorage \<noteq> None \<and> \<not> NoStorageDownload pd
                 then Inr (the fromBlobStorage,
                           logf (''downloading '' @ hash @ '' from blob storage'') md1)
                 else download w branchName md1 hash) of
             Inl e \<Rightarrow> Inl e
           | Inr (body, md2) \<Rightarrow> Inr (body, md2\<lparr>BlobCache := (BlobCache md2)(hash \<mapsto> body)\<rparr>)))"

definition parseLine :: "string \<Rightarrow> error + (string \<times> string) option" where
  \<comment> \<open>lines 205 to 211: \<open>None\<close> is \<open>continue\<close>, otherwise \<open>hash\<close> and \<open>path\<close>\<close>
  "parseLine line =
     (if TrimSpace line = [] then Inr None
      else
        (let lineInfo = SplitN line (CHR '' '') 2 in
         if length lineInfo < 2 then Inl (Panic ''index out of range [1] with length 1'')
         else Inr (Some (TrimSpace (lineInfo ! 0), TrimSpace (lineInfo ! 1)))))"

definition materialize ::
  "World \<Rightarrow> ProcessData \<Rightarrow> string \<Rightarrow> ModeData \<Rightarrow> string \<Rightarrow> string \<Rightarrow> error \<times> ModeData + ModeData" where
  \<comment> \<open>lines 213 to 270; an abort carries the \<open>ModeData\<close> as it is at that moment\<close>
  "materialize w pd branchName md hash path =
     (case acquire w pd branchName md hash of
        Inl e \<Rightarrow> Inl e
      | Inr (body, md1) \<Rightarrow>
          (case Create w path of
             None \<Rightarrow> Inl (Fatal ''could not open file pointer'', md1)
           | Some file \<Rightarrow>
               (let md2 = md1\<lparr>Worktree := (Worktree md1)(file \<mapsto> [])\<rparr> in
                case CompareHash w body hash of
                  None \<Rightarrow> Inl (Fatal ''checksum in metadata does not match dist-git file'', md2)
                | Some hasher \<Rightarrow>
                    (let md3 = md2\<lparr>SourcesToIgnore := SourcesToIgnore md2 @
                                 [\<lparr>IgnoredSource_Name = path, HashFunction = hasher\<rparr>]\<rparr> in
                     if Write_err w path
                     then Inl (Fatal ''could not copy dist-git file to in-tree'', md3)
                     else Inr (md3\<lparr>Worktree := (Worktree md3)(file \<mapsto> body)\<rparr>)))))"

definition writeLine ::
  "World \<Rightarrow> ProcessData \<Rightarrow> string \<Rightarrow> ModeData \<Rightarrow> string \<Rightarrow> error \<times> ModeData + ModeData" where
  \<comment> \<open>the body of the loop over the lines of the metadata file\<close>
  "writeLine w pd branchName md line =
     (case parseLine line of
        Inl e \<Rightarrow> Inl (e, md)
      | Inr None \<Rightarrow> Inr md
      | Inr (Some (hash, path)) \<Rightarrow> materialize w pd branchName md hash path)"

fun writeLines ::
  "World \<Rightarrow> ProcessData \<Rightarrow> string \<Rightarrow> ModeData \<Rightarrow> string list \<Rightarrow> error \<times> ModeData + ModeData" where
  \<comment> \<open>\<open>for _, line := range fileContent\<close>\<close>
  "writeLines w pd branchName md [] = Inr md"
| "writeLines w pd branchName md (line # fileContent) =
     (case writeLine w pd branchName md line of
        Inl e \<Rightarrow> Inl e
      | Inr md' \<Rightarrow> writeLines w pd branchName md' fileContent)"

definition WriteSource :: "World \<Rightarrow> ProcessData \<Rightarrow> ModeData \<Rightarrow> error \<times> ModeData + ModeData" where
  "WriteSource w pd md =
     (if Remote_err w then Inl (Fatal ''could not get upstream remote'', md)
      else
        (case (if HasPrefix (TagBranch md) ''refs/heads''
               then Inr (''+'' @ TagBranch md @ '':'' @ TagBranch md,
                         TrimPrefix (TagBranch md) ''refs/heads/'')
               else (case FindStringSubmatch (tagImportRegex w) (TagBranch md) of
                       None \<Rightarrow> Inl (Panic ''index out of range [2] with length 0'')
                     | Some match \<Rightarrow>
                         Inr (''+refs/heads/'' @ group2 match @ '':'' @ TagBranch md,
                              group2 match))) of
           Inl e \<Rightarrow> Inl (e, md)
         | Inr (refspec, branchName) \<Rightarrow>
             (let md1 = logf (''checking out upstream refspec '' @ refspec) md in
              if Fetch w refspec = FetchErr then Inl (Fatal ''could not fetch upstream'', md1)
              else
                (case Checkout w (TagBranch md1) (Worktree md1) of
                   None \<Rightarrow> Inl (Fatal ''could not checkout source from git'', md1)
                 | Some files \<Rightarrow>
                     (let md2 = md1\<lparr>Worktree := files\<rparr> in
                      if Add_err w then Inl (Fatal ''could not add Worktree'', md2)
                      else
                        \<comment> \<open>the forced checkout has reset the index to the files of the branch\<close>
                        (let md3 = md2\<lparr>Staged := Worktree md2\<rparr> in
                         case lookupFile w md3 (''.'' @ RpmFile_Name md3 @ ''.metadata'') of
                           None \<Rightarrow>
                             Inr (logf ''warn: could not open metadata file, so skipping'' md3)
                         | Some fileBytes \<Rightarrow>
                             if ReadAll_err w
                             then Inl (Fatal ''could not read metadata file'', md3)
                             else writeLines w pd branchName md3
                                    (Split fileBytes (CHR 0x0A))))))))"

fun stateOf :: "error \<times> ModeData + ModeData \<Rightarrow> ModeData" where
  \<comment> \<open>the \<open>ModeData\<close> at the moment the call returns or aborts\<close>
  "stateOf (Inl (e, md)) = md"
| "stateOf (Inr md) = md"

definition quiet :: "string \<Rightarrow> string \<Rightarrow> bytes \<Rightarrow> ModeData \<Rightarrow> ModeData \<Rightarrow> bool" where
  \<comment> \<open>from \<open>md\<close> to \<open>md'\<close> the cache entry of \<open>H\<close> stays as it is, and neither a read of
      the blob store nor a GET of the origin for \<open>H\<close> is added to the trace\<close>
  "quiet branchName H cached md md' =
     (BlobCache md' H = Some cached \<and> RpmFile_Name md' = RpmFile_Name md \<and>
      (\<exists>new. trace md' = trace md @ new \<and> BlobStorage_Read_call H \<notin> set new \<and>
             Client_Do (sourceURL (RpmFile_Name md) branchName H) \<notin> set new))"

section \<open>PostProcess\<close>

text \<open>
  \<open>Stat\<close> succeeds on a name that the filesystem accepts and that denotes a file it
  holds; \<open>Remove\<close> takes that file out. \<open>Worktree.Add(".")\<close> walks the files that
  are in the tree and writes each into the index: the index entry of a file that is
  no longer in the tree stays.
\<close>

fun removeLoop :: "World \<Rightarrow> ModeData \<Rightarrow> IgnoredSource list \<Rightarrow> error \<times> ModeData + ModeData" where
  \<comment> \<open>\<open>for _, source := range md.SourcesToIgnore\<close>\<close>
  "removeLoop w md [] = Inr md"
| "removeLoop w md (source # sources) =
     (case underlyingPath w (IgnoredSource_Name source) of
        None \<Rightarrow> removeLoop w md sources
      | Some file \<Rightarrow>
          (case Worktree md file of
             None \<Rightarrow> removeLoop w md sources
           | Some _ \<Rightarrow>
               if Remove_err w (IgnoredSource_Name source)
               then Inl (Fatal ''could not remove dist-git file'', md)
               else removeLoop w (md\<lparr>Worktree := (Worktree md)(file := None)\<rparr>) sources))"

definition PostProcess :: "World \<Rightarrow> ModeData \<Rightarrow> error \<times> ModeData + ModeData" where
  "PostProcess w md =
     (case removeLoop w md (SourcesToIgnore md) of
        Inl e \<Rightarrow> Inl e
      | Inr md' \<Rightarrow>
          if Add_err w then Inl (Fatal ''could not add git sources'', md')
          else Inr (md'\<lparr>Staged := Staged md' ++ Worktree md'\<rparr>))"

section \<open>A concrete run\<close>

text \<open>
  The inputs at which the theorems below are evaluated: the package \<open>bash\<close> on the
  branch \<open>c8\<close>, a stand-in for \<open>CompareHash\<close> that accepts the bytes \<open>tarball\<close> for
  the checksum \<open>deadbeef\<close> and nothing else, an origin that serves \<open>tarball\<close> under
  that checksum and \<open>corrupt\<close> under any other, the filesystem \<open>memfs.New()\<close>, and
  collaborators that do not fail.
\<close>

definition examplePd :: ProcessData where
  "examplePd =
     \<lparr>RpmLocation = ''https://git.centos.org/rpms/bash'', ImportBranchPrefix = ''c'',
      Version = 8, NoStorageDownload = False, BlobStorage_Read = (\<lambda>hash. None)\<rparr>"

definition noDownloadPd :: ProcessData where
  \<comment> \<open>the flag is set, and the blob store holds the blob\<close>
  "noDownloadPd =
     examplePd\<lparr>NoStorageDownload := True,
               BlobStorage_Read := (\<lambda>hash. if hash = ''deadbeef'' then Some ''tarball'' else None)\<rparr>"

definition exampleWorld :: World where
  "exampleWorld =
     \<lparr>tagImportRegex = specTagImportRegex,
      CompareHash = (\<lambda>body checksum.
         if body = ''tarball'' \<and> checksum = ''deadbeef'' then Some ''sha256'' else None),
      Remote_err = False,
      Fetch = (\<lambda>refspec. FetchOk),
      Checkout = (\<lambda>branch files. Some files),
      Add_err = False,
      ReadAll_err = False,
      Http = (\<lambda>url. if url = ''https://git.centos.org/sources/bash/c8/deadbeef''
                     then Body ''tarball'' else Body ''corrupt''),
      underlyingPath = memfsPath,
      Create_err = (\<lambda>path. False),
      Write_err = (\<lambda>path. False),
      Remove_err = (\<lambda>path. False)\<rparr>"

definition exampleMd :: ModeData where
  "exampleMd =
     \<lparr>Worktree = Map.empty, Staged = Map.empty, RpmFile_Name = ''bash'',
      TagBranch = ''refs/heads/c8'', SourcesToIgnore = [], BlobCache = Map.empty,
      trace = []\<rparr>"

definition metadataMd :: ModeData where
  \<comment> \<open>the checkout holds the metadata file of the package, with one entry\<close>
  "metadataMd =
     exampleMd\<lparr>Worktree := [''/.bash.metadata'' \<mapsto> ''deadbeef /SOURCES/a.tar.gz'' @ [CHR 0x0A]]\<rparr>"

definition reconciledMd :: ModeData where
  \<comment> \<open>after the blobs were written: two recorded sources, the first under the name
      \<open>SOURCES/a.tar.gz\<close>, which the filesystem keeps as \<open>/SOURCES/a.tar.gz\<close>, the second
      no longer in the tree\<close>
  "reconciledMd =
     exampleMd\<lparr>Worktree := [''/SOURCES/a.tar.gz'' \<mapsto> ''tarball'', ''/bash.spec'' \<mapsto> ''Name: bash''],
               SourcesToIgnore := [\<lparr>IgnoredSource_Name = ''SOURCES/a.tar.gz'', HashFunction = ''sha256''\<rparr>,
                                   \<lparr>IgnoredSource_Name = ''/SOURCES/b.tar.gz'', HashFunction = ''sha256''\<rparr>]\<rparr>"

definition cachedMd :: ModeData where
  \<comment> \<open>the cache already holds the blob\<close>
  "cachedMd = exampleMd\<lparr>BlobCache := [''deadbeef'' \<mapsto> ''tarball'']\<rparr>"

definition exampleEnv :: GitEnv where
  \<comment> \<open>three annotated tags, two of them for the component \<open>c8\<close>\<close>
  "exampleEnv =
     \<lparr>Init_err = False, Worktree_err = False, CreateRemote_err = False, Fetch_err = False,
      TagObjects = Some [\<lparr>Name = ''imports/c8.bash-2'', Tagger = \<lparr>When = 20\<rparr>\<rparr>,
                         \<lparr>Name = ''imports/c8s.bash-1'', Tagger = \<lparr>When = 15\<rparr>\<rparr>,
                         \<lparr>Name = ''imports/c8.bash-1'', Tagger = \<lparr>When = 10\<rparr>\<rparr>],
      Remote_List = Some [],
      CommitObject = (\<lambda>hash. None),
      rangeOrder = rev\<rparr>"

definition twoTagsEnv :: GitEnv where
  \<comment> \<open>two annotated tags for the component \<open>c8\<close>, the later one visited first\<close>
  "twoTagsEnv =
     exampleEnv\<lparr>TagObjects := Some [\<lparr>Name = ''imports/c8.bash-2'', Tagger = \<lparr>When = 20\<rparr>\<rparr>,
                                     \<lparr>Name = ''imports/c8.bash-1'', Tagger = \<lparr>When = 10\<rparr>\<rparr>]\<rparr>"

definition headsEnv :: GitEnv where
  \<comment> \<open>no tag objects; the remote lists a branch head, a tag whose commit cannot be read,
      a reference with the zero hash and a tag on a readable commit\<close>
  "headsEnv =
     exampleEnv\<lparr>TagObjects := Some [],
                Remote_List := Some [\<lparr>refName = ''refs/heads/c8'', refHash = 1\<rparr>,
                                     \<lparr>refName = ''refs/tags/imports/c8.bash-3'', refHash = 2\<rparr>,
                                     \<lparr>refName = ''refs/tags/imports/c8.bash-4'', refHash = 0\<rparr>,
                                     \<lparr>refName = ''refs/tags/imports/c8.bash-5'', refHash = 3\<rparr>],
                CommitObject := (\<lambda>hash. if hash = 1 then Some \<lparr>Committer = \<lparr>When = 7\<rparr>\<rparr>
                                         else if hash = 3 then Some \<lparr>Committer = \<lparr>When = 9\<rparr>\<rparr>
                                         else None)\<rparr>"

definition branchOnlyEnv :: GitEnv where
  \<comment> \<open>no tag objects; the remote lists one branch head, on a readable commit\<close>
  "branchOnlyEnv =
     exampleEnv\<lparr>TagObjects := Some [],
                Remote_List := Some [\<lparr>refName = ''refs/heads/c8'', refHash = 1\<rparr>],
                CommitObject := (\<lambda>hash. Some \<lparr>Committer = \<lparr>When = 7\<rparr>\<rparr>)\<rparr>"

section \<open>Facts about the string functions\<close>

lemma HasPrefix_iff: "HasPrefix s p \<longleftrightarrow> prefix p s"
  unfolding HasPrefix_def
  by (metis prefix_def append_eq_conv_conj prefix_length_le take_is_prefix)

lemma TrimPrefix_append: "TrimPrefix (p @ r) p = r"
  by (simp add: TrimPrefix_def HasPrefix_def)

lemma TrimPrefix_other: "\<not> prefix p s \<Longrightarrow> TrimPrefix s p = s"
  by (simp add: TrimPrefix_def HasPrefix_iff)

lemma MatchString_iff: "MatchString re s \<longleftrightarrow> FindStringSubmatch re s \<noteq> None"
  by (simp add: MatchString_def FindStringSubmatch_def)

lemma TrimLeft_decomp:
  "[] \<notin> set W \<Longrightarrow> \<exists>ws. set ws \<subseteq> set W \<and> s = concat ws @ TrimLeft W s"
proof (induction W s rule: TrimLeft.induct)
  case (1 W)
  have "set [] \<subseteq> set W \<and> [] = concat [] @ TrimLeft W []" by simp
  then show ?case by blast
next
  case (2 W c cs)
  show ?case
  proof (cases "find (\<lambda>w. prefix w (c # cs)) W")
    case None
    then have "set [] \<subseteq> set W \<and> c # cs = concat [] @ TrimLeft W (c # cs)" by simp
    then show ?thesis by blast
  next
    case (Some w)
    then have w: "w \<in> set W" "prefix w (c # cs)"
      by (auto simp: find_Some_iff)
    with 2 have ne: "w \<noteq> []" by auto
    from w(2) obtain r where r: "c # cs = w @ r" by (auto simp: prefix_def)
    with ne have dr: "drop (length w - 1) cs = r"
      by (cases w) auto
    from 2(1)[OF Some 2(2)] obtain ws where
      ws: "set ws \<subseteq> set W" "drop (length w - 1) cs = concat ws @ TrimLeft W (drop (length w - 1) cs)"
      by blast
    have "TrimLeft W (c # cs) = TrimLeft W (drop (length w - 1) cs)"
      using Some by simp
    then have "set (w # ws) \<subseteq> set W \<and> c # cs = concat (w # ws) @ TrimLeft W (c # cs)"
      using ws w(1) r dr by simp
    then show ?thesis by blast
  qed
qed

lemma TrimLeft_no_prefix:
  "[] \<notin> set W \<Longrightarrow> w \<in> set W \<Longrightarrow> \<not> prefix w (TrimLeft W s)"
proof (induction W s rule: TrimLeft.induct)
  case (1 W)
  then show ?case by auto
next
  case (2 W c cs)
  show ?case
  proof (cases "find (\<lambda>w. prefix w (c # cs)) W")
    case None
    then have "TrimLeft W (c # cs) = c # cs" by simp
    moreover from None 2(3) have "\<not> prefix w (c # cs)" by (auto simp: find_None_iff)
    ultimately show ?thesis by simp
  next
    case (Some v)
    with 2 show ?thesis by simp
  qed
qed

lemma spaceRunes_nonempty: "[] \<notin> set spaceRunes"
  by (simp add: spaceRunes_def)

lemma TrimSpace_decomp:
  "\<exists>a b. set a \<subseteq> set spaceRunes \<and> set b \<subseteq> set spaceRunes \<and> s = concat a @ TrimSpace s @ concat b"
proof -
  obtain a where a: "set a \<subseteq> set spaceRunes" "s = concat a @ TrimLeft spaceRunes s"
    using TrimLeft_decomp[OF spaceRunes_nonempty] by blast
  have "[] \<notin> set (map rev spaceRunes)" using spaceRunes_nonempty by auto
  from TrimLeft_decomp[OF this, of "rev (TrimLeft spaceRunes s)"]
  obtain bs where bs: "set bs \<subseteq> set (map rev spaceRunes)"
    "rev (TrimLeft spaceRunes s) = concat bs @ rev (TrimSpace s)"
    by (auto simp: TrimSpace_def)
  from bs(2) have "TrimLeft spaceRunes s = TrimSpace s @ rev (concat bs)"
    by (metis rev_append rev_rev_ident)
  then have l: "TrimLeft spaceRunes s = TrimSpace s @ concat (map rev (rev bs))"
    by (simp add: rev_concat)
  have "set (map rev (rev bs)) \<subseteq> set spaceRunes"
    using bs(1) by auto
  with a l show ?thesis by metis
qed

lemma TrimSpace_trimmed:
  assumes "w \<in> set spaceRunes"
  shows "\<not> prefix w (TrimSpace s)" and "\<not> suffix w (TrimSpace s)"
proof -
  have ne: "[] \<notin> set (map rev spaceRunes)" using spaceRunes_nonempty by auto
  have "rev w \<in> set (map rev spaceRunes)" using assms by simp
  from TrimLeft_no_prefix[OF ne this, of "rev (TrimLeft spaceRunes s)"]
  show "\<not> suffix w (TrimSpace s)"
    by (simp add: TrimSpace_def suffix_to_prefix)
  obtain bs where "rev (TrimLeft spaceRunes s) = concat bs @ rev (TrimSpace s)"
    using TrimLeft_decomp[OF ne, of "rev (TrimLeft spaceRunes s)"] by (auto simp: TrimSpace_def)
  then have "TrimLeft spaceRunes s = TrimSpace s @ rev (concat bs)"
    by (metis rev_append rev_rev_ident)
  then have "prefix (TrimSpace s) (TrimLeft spaceRunes s)" by (simp add: prefix_def)
  moreover have "\<not> prefix w (TrimLeft spaceRunes s)"
    using TrimLeft_no_prefix[OF spaceRunes_nonempty assms] .
  ultimately show "\<not> prefix w (TrimSpace s)" using prefix_order.trans by blast
qed

lemma spaceRunes_prefix_free:
  "v \<in> set spaceRunes \<Longrightarrow> w \<in> set spaceRunes \<Longrightarrow> prefix v w \<Longrightarrow> v = w"
  unfolding spaceRunes_def by (elim disjE | simp)+

lemma TrimLeft_rune:
  assumes "w \<in> set spaceRunes"
  shows "TrimLeft spaceRunes (w @ r) = TrimLeft spaceRunes r"
proof -
  from assms spaceRunes_nonempty have "w \<noteq> []" by auto
  then obtain c cs where w: "w = c # cs" by (auto simp: neq_Nil_conv)
  have "prefix w (c # cs @ r)" using w by simp
  with assms obtain v where f: "find (\<lambda>v. prefix v (c # cs @ r)) spaceRunes = Some v"
    by (cases "find (\<lambda>v. prefix v (c # cs @ r)) spaceRunes") (auto simp: find_None_iff)
  then have v: "v \<in> set spaceRunes" "prefix v (c # cs @ r)"
    by (auto simp: find_Some_iff)
  have "prefix v w \<or> prefix w v"
    using v(2) w prefix_same_cases[of v "w @ r" w] by auto
  with v(1) assms have "v = w" using spaceRunes_prefix_free by blast
  with f w show ?thesis by simp
qed

lemma TrimLeft_runes:
  "set ws \<subseteq> set spaceRunes \<Longrightarrow> TrimLeft spaceRunes (concat ws @ r) = TrimLeft spaceRunes r"
  by (induction ws) (simp_all add: TrimLeft_rune)

lemma TrimSpace_blank_iff:
  "TrimSpace s = [] \<longleftrightarrow> (\<exists>ws. set ws \<subseteq> set spaceRunes \<and> s = concat ws)"
proof
  assume e: "TrimSpace s = []"
  from TrimSpace_decomp[of s] obtain a b where
    "set a \<subseteq> set spaceRunes" "set b \<subseteq> set spaceRunes" "s = concat a @ TrimSpace s @ concat b"
    by blast
  with e have "set (a @ b) \<subseteq> set spaceRunes \<and> s = concat (a @ b)" by simp
  then show "\<exists>ws. set ws \<subseteq> set spaceRunes \<and> s = concat ws" by blast
next
  assume "\<exists>ws. set ws \<subseteq> set spaceRunes \<and> s = concat ws"
  then obtain ws where "set ws \<subseteq> set spaceRunes" "s = concat ws" by blast
  with TrimLeft_runes[of ws "[]"] have "TrimLeft spaceRunes s = []" by simp
  then show "TrimSpace s = []" by (simp add: TrimSpace_def)
qed

lemma SplitN_2: "SplitN s sep 2 =
  (if sep \<in> set s then [takeWhile (\<lambda>c. c \<noteq> sep) s, tl (dropWhile (\<lambda>c. c \<noteq> sep) s)] else [s])"
  by (simp add: numeral_2_eq_2)

lemma split_at_first:
  assumes "sep \<in> set s"
  shows "s = takeWhile (\<lambda>c. c \<noteq> sep) s @ sep # tl (dropWhile (\<lambda>c. c \<noteq> sep) s)"
    and "sep \<notin> set (takeWhile (\<lambda>c. c \<noteq> sep) s)"
proof -
  from assms have "dropWhile (\<lambda>c. c \<noteq> sep) s \<noteq> []" by (simp add: dropWhile_eq_Nil_conv) 
  moreover have "hd (dropWhile (\<lambda>c. c \<noteq> sep) s) = sep" using assms
    by (metis (mono_tags, lifting) calculation hd_dropWhile)
  ultimately have "dropWhile (\<lambda>c. c \<noteq> sep) s = sep # tl (dropWhile (\<lambda>c. c \<noteq> sep) s)"
    by (metis list.collapse)
  then show "s = takeWhile (\<lambda>c. c \<noteq> sep) s @ sep # tl (dropWhile (\<lambda>c. c \<noteq> sep) s)"
    by (metis takeWhile_dropWhile_id)
  show "sep \<notin> set (takeWhile (\<lambda>c. c \<noteq> sep) s)"
    by (auto dest: set_takeWhileD)
qed

lemma parseLine_blank: "TrimSpace line = [] \<Longrightarrow> parseLine line = Inr None"
  by (simp add: parseLine_def)

lemma parseLine_no_space:
  "TrimSpace line \<noteq> [] \<Longrightarrow> CHR '' '' \<notin> set line \<Longrightarrow>
   parseLine line = Inl (Panic ''index out of range [1] with length 1'')"
  by (simp add: parseLine_def SplitN_2)

lemma parseLine_space:
  "TrimSpace line \<noteq> [] \<Longrightarrow> CHR '' '' \<in> set line \<Longrightarrow>
   parseLine line = Inr (Some (TrimSpace (takeWhile (\<lambda>c. c \<noteq> CHR '' '') line),
                               TrimSpace (tl (dropWhile (\<lambda>c. c \<noteq> CHR '' '') line))))"
  by (simp add: parseLine_def SplitN_2)


section \<open>ImportName: the label of a resolved reference\<close>

text \<open>
  Claim C9. When the reference name matches the import-tag pattern, \<open>ImportName\<close> is
  the third group of the match, the package-name component. Otherwise it is the name
  without its prefix \<open>refs/heads/\<close>, and the name itself when it has no such prefix.
  This holds for every pattern. On the pattern modelled from the specification,
  \<open>refs/tags/imports/c9s1.pkgname-3\<close> yields \<open>pkgname\<close> and \<open>refs/heads/c9s1\<close>
  yields \<open>c9s1\<close>.
\<close>

theorem ImportName_spec:
  "(MatchString re name \<longrightarrow>
      (\<exists>match. FindStringSubmatch re name = Some match \<and> ImportName re name = group3 match)) \<and>
   (\<not> MatchString re name \<longrightarrow>
      (\<forall>rest. name = ''refs/heads/'' @ rest \<longrightarrow> ImportName re name = rest) \<and>
      (\<not> prefix ''refs/heads/'' name \<longrightarrow> ImportName re name = name)) \<and>
   ImportName specTagImportRegex ''refs/tags/imports/c9s1.pkgname-3'' = ''pkgname'' \<and>
   ImportName specTagImportRegex ''refs/heads/c9s1'' = ''c9s1''"
proof (intro conjI impI allI)
  assume "MatchString re name"
  then obtain match where "FindStringSubmatch re name = Some match"
    by (auto simp: MatchString_iff)
  then show "\<exists>match. FindStringSubmatch re name = Some match \<and> ImportName re name = group3 match"
    by (simp add: ImportName_def)
next
  fix rest
  assume "\<not> MatchString re name" and "name = ''refs/heads/'' @ rest"
  then show "ImportName re name = rest"
    using TrimPrefix_append[of "''refs/heads/''" rest]
    by (simp add: ImportName_def MatchString_iff)
next
  assume "\<not> MatchString re name" and "\<not> prefix ''refs/heads/'' name"
  then show "ImportName re name = name"
    by (simp add: ImportName_def MatchString_iff TrimPrefix_other)
next
  show "ImportName specTagImportRegex ''refs/tags/imports/c9s1.pkgname-3'' = ''pkgname''"
    by code_simp
next
  show "ImportName specTagImportRegex ''refs/heads/c9s1'' = ''c9s1''"
    by code_simp
qed

theorem ImportName_spec_witness:
  "MatchString specTagImportRegex ''refs/tags/imports/c8.bash-12'' \<and>
   ImportName specTagImportRegex ''refs/tags/imports/c8.bash-12'' = ''bash'' \<and>
   \<not> MatchString specTagImportRegex ''refs/heads/c8'' \<and>
   ImportName specTagImportRegex ''refs/heads/c8'' = ''c8'' \<and>
   \<not> MatchString specTagImportRegex ''HEAD'' \<and> \<not> prefix ''refs/heads/'' ''HEAD'' \<and>
   ImportName specTagImportRegex ''HEAD'' = ''HEAD''"
proof -
  have m: "MatchString specTagImportRegex ''refs/tags/imports/c8.bash-12''" by code_simp
  have g: "FindStringSubmatch specTagImportRegex ''refs/tags/imports/c8.bash-12'' = Some match
           \<Longrightarrow> group3 match = ''bash''" for match
    by (simp add: FindStringSubmatch_def specTagImportRegex_def HasPrefix_def Let_def) auto
  have n1: "\<not> MatchString specTagImportRegex ''refs/heads/c8''" by code_simp
  have n2: "\<not> MatchString specTagImportRegex ''HEAD''" by code_simp
  have n3: "\<not> prefix ''refs/heads/'' ''HEAD''" by simp
  from ImportName_spec[of specTagImportRegex "''refs/tags/imports/c8.bash-12''"] m g
  have a: "ImportName specTagImportRegex ''refs/tags/imports/c8.bash-12'' = ''bash''" by auto
  from ImportName_spec[of specTagImportRegex "''refs/heads/c8''"] n1
  have b: "ImportName specTagImportRegex ''refs/heads/c8'' = ''c8''" by simp
  from ImportName_spec[of specTagImportRegex "''HEAD''"] n2 n3
  have c: "ImportName specTagImportRegex ''HEAD'' = ''HEAD''" by simp
  from m n1 n2 n3 a b c show ?thesis by simp
qed

section \<open>Parsing the metadata file\<close>

lemma download_Fatal: "download w b md h = Inl (e, md') \<Longrightarrow> \<exists>msg. e = Fatal msg"
  by (auto simp: download_def Let_def split: http_result.splits)

lemma acquire_Fatal: "acquire w pd b md h = Inl (e, md') \<Longrightarrow> \<exists>msg. e = Fatal msg"
  by (auto simp: acquire_def Let_def split: option.splits sum.splits if_splits
           dest: download_Fatal)

lemma materialize_Fatal:
  "materialize w pd b md h p = Inl (e, md') \<Longrightarrow> \<exists>msg. e = Fatal msg"
  by (auto simp: materialize_def Let_def split: option.splits sum.splits if_splits prod.splits
           dest: acquire_Fatal)

lemma writeLine_no_space:
  "TrimSpace line \<noteq> [] \<Longrightarrow> CHR '' '' \<notin> set line \<Longrightarrow>
   writeLine w pd b md line = Inl (Panic ''index out of range [1] with length 1'', md)"
  by (simp add: writeLine_def parseLine_no_space)

lemma writeLine_space_no_Panic:
  "TrimSpace line = [] \<or> CHR '' '' \<in> set line \<Longrightarrow> writeLine w pd b md line \<noteq> Inl (Panic msg, md')"
  by (cases "TrimSpace line = []")
     (auto simp: writeLine_def parseLine_blank parseLine_space dest: materialize_Fatal)

lemma writeLines_Inr_space:
  "writeLines w pd b md lines = Inr md' \<Longrightarrow> l \<in> set lines \<Longrightarrow> TrimSpace l \<noteq> [] \<Longrightarrow>
   CHR '' '' \<in> set l"
proof (induction lines arbitrary: md)
  case Nil
  then show ?case by simp
next
  case (Cons x xs)
  from Cons.prems(1) obtain md1 where x: "writeLine w pd b md x = Inr md1"
    and xs: "writeLines w pd b md1 xs = Inr md'"
    by (auto split: sum.splits)
  show ?case
  proof (cases "l = x")
    case True
    show ?thesis
    proof (rule ccontr)
      assume "CHR '' '' \<notin> set l"
      with True Cons.prems(3) x writeLine_no_space[of x w pd b md] show False by simp
    qed
  next
    case False
    with Cons.prems(2) have "l \<in> set xs" by simp
    from Cons.IH[OF xs this Cons.prems(3)] show ?thesis .
  qed
qed

lemma writeLines_no_Panic:
  "\<forall>l\<in>set lines. TrimSpace l \<noteq> [] \<longrightarrow> CHR '' '' \<in> set l \<Longrightarrow>
   writeLines w pd b md lines \<noteq> Inl (Panic msg, md')"
proof (induction lines arbitrary: md)
  case Nil
  then show ?case by simp
next
  case (Cons x xs)
  have "TrimSpace x = [] \<or> CHR '' '' \<in> set x" using Cons.prems by auto
  from writeLine_space_no_Panic[OF this] have "writeLine w pd b md x \<noteq> Inl (Panic msg, md')" .
  moreover have "writeLines w pd b md1 xs \<noteq> Inl (Panic msg, md')" for md1
    using Cons.IH Cons.prems by simp
  ultimately show ?case by (auto split: sum.splits)
qed

text \<open>
  Claim C10. A line of the metadata file that is not blank and holds no space
  character makes \<open>SplitN\<close> return one field, and reading \<open>lineInfo[1]\<close> panics with
  an index out of range: the loop stops there with the \<open>ModeData\<close> untouched. A run
  that reaches the end of the file has a space in every line that is not blank, and
  when every such line has one the loop does not panic.
\<close>

theorem parseLine_single_token_panics:
  "(TrimSpace line \<noteq> [] \<and> CHR '' '' \<notin> set line \<longrightarrow>
      parseLine line = Inl (Panic ''index out of range [1] with length 1'') \<and>
      writeLine w pd branchName md line =
        Inl (Panic ''index out of range [1] with length 1'', md) \<and>
      writeLines w pd branchName md (line # fileContent) =
        Inl (Panic ''index out of range [1] with length 1'', md)) \<and>
   ((\<exists>md'. writeLines w pd branchName md fileContent = Inr md') \<longrightarrow>
      (\<forall>l\<in>set fileContent. TrimSpace l \<noteq> [] \<longrightarrow> CHR '' '' \<in> set l)) \<and>
   ((\<forall>l\<in>set fileContent. TrimSpace l \<noteq> [] \<longrightarrow> CHR '' '' \<in> set l) \<longrightarrow>
      (\<forall>msg md'. writeLines w pd branchName md fileContent \<noteq> Inl (Panic msg, md')))"
proof (intro conjI impI)
  assume a: "TrimSpace line \<noteq> [] \<and> CHR '' '' \<notin> set line"
  then show "parseLine line = Inl (Panic ''index out of range [1] with length 1'')"
    by (simp add: parseLine_no_space)
  from a show l: "writeLine w pd branchName md line =
      Inl (Panic ''index out of range [1] with length 1'', md)"
    by (simp add: writeLine_no_space)
  then show "writeLines w pd branchName md (line # fileContent) =
      Inl (Panic ''index out of range [1] with length 1'', md)"
    by simp
next
  assume "\<exists>md'. writeLines w pd branchName md fileContent = Inr md'"
  then show "\<forall>l\<in>set fileContent. TrimSpace l \<noteq> [] \<longrightarrow> CHR '' '' \<in> set l"
    using writeLines_Inr_space by blast
next
  assume "\<forall>l\<in>set fileContent. TrimSpace l \<noteq> [] \<longrightarrow> CHR '' '' \<in> set l"
  then show "\<forall>msg md'. writeLines w pd branchName md fileContent \<noteq> Inl (Panic msg, md')"
    using writeLines_no_Panic by blast
qed

theorem parseLine_single_token_panics_witness:
  "TrimSpace ''deadbeef'' \<noteq> [] \<and> CHR '' '' \<notin> set ''deadbeef'' \<and>
   writeLines exampleWorld examplePd ''c8'' exampleMd [''deadbeef'', ''deadbeef /SOURCES/a.tar.gz''] =
     Inl (Panic ''index out of range [1] with length 1'', exampleMd) \<and>
   (\<exists>md'. writeLines exampleWorld examplePd ''c8'' exampleMd
            [''deadbeef /SOURCES/a.tar.gz'', '' ''] = Inr md') \<and>
   CHR '' '' \<in> set ''deadbeef /SOURCES/a.tar.gz'' \<and> TrimSpace '' '' = [] \<and>
   (\<forall>msg md'. writeLines exampleWorld examplePd ''c8'' exampleMd
       [''deadbeef /SOURCES/a.tar.gz'', '' ''] \<noteq> Inl (Panic msg, md'))"
proof -
  have h1: "TrimSpace ''deadbeef'' \<noteq> [] \<and> CHR '' '' \<notin> set ''deadbeef''" by code_simp
  have h2: "\<exists>md'. writeLines exampleWorld examplePd ''c8'' exampleMd
                [''deadbeef /SOURCES/a.tar.gz'', '' ''] = Inr md'"
  proof -
    have "case writeLines exampleWorld examplePd ''c8'' exampleMd
                [''deadbeef /SOURCES/a.tar.gz'', '' ''] of Inl _ \<Rightarrow> False | Inr _ \<Rightarrow> True"
      by code_simp
    then show ?thesis by (auto split: sum.splits)
  qed
  have h3: "TrimSpace '' '' = []" by code_simp
  note t1 = parseLine_single_token_panics[of "''deadbeef''" exampleWorld examplePd "''c8''" exampleMd
      "[''deadbeef /SOURCES/a.tar.gz'']"]
  note t2 = parseLine_single_token_panics[of "''deadbeef''" exampleWorld examplePd "''c8''" exampleMd
      "[''deadbeef /SOURCES/a.tar.gz'', '' '']"]
  from t1 h1 have a: "writeLines exampleWorld examplePd ''c8'' exampleMd
      [''deadbeef'', ''deadbeef /SOURCES/a.tar.gz''] =
     Inl (Panic ''index out of range [1] with length 1'', exampleMd)" by blast
  from t2 h2 have b: "\<forall>l\<in>set [''deadbeef /SOURCES/a.tar.gz'', '' '']. TrimSpace l \<noteq> [] \<longrightarrow> CHR '' '' \<in> set l"
    by blast
  with t2 have c: "\<forall>msg md'. writeLines exampleWorld examplePd ''c8'' exampleMd
       [''deadbeef /SOURCES/a.tar.gz'', '' ''] \<noteq> Inl (Panic msg, md')" by blast
  have d: "CHR '' '' \<in> set ''deadbeef /SOURCES/a.tar.gz''" by simp
  from h1 h2 h3 a c d show ?thesis by blast
qed

text \<open>
  Claim C7, as stated, fails: a line whose two tokens are separated by a tab is not
  blank, yet \<open>SplitN\<close> on the space character yields one field and the parse panics.
\<close>

theorem parseLine_two_fields_counterexample:
  "TrimSpace (''deadbeef'' @ CHR 0x09 # ''/SOURCES/a.tar.gz'') \<noteq> [] \<and>
   SplitN (''deadbeef'' @ CHR 0x09 # ''/SOURCES/a.tar.gz'') (CHR '' '') 2 =
     [''deadbeef'' @ CHR 0x09 # ''/SOURCES/a.tar.gz''] \<and>
   parseLine (''deadbeef'' @ CHR 0x09 # ''/SOURCES/a.tar.gz'') =
     Inl (Panic ''index out of range [1] with length 1'')"
  by code_simp

text \<open>
  Claim C7, amended. A blank line is skipped: no entry, the \<open>ModeData\<close> unchanged. A
  line that is not blank and holds a space character is cut at its first space into
  exactly two fields, and the entry is the content hash (the text before that space)
  and the relative path (all the text after it), each passed through \<open>TrimSpace\<close>.
  The result of \<open>TrimSpace\<close> neither starts nor ends with a white-space rune, it
  is what remains of its argument between two runs of white-space runes, and it is
  empty exactly when the argument is made of white-space runes only.
\<close>

theorem parseLine_fields:
  "(TrimSpace line = [] \<longrightarrow>
      parseLine line = Inr None \<and> writeLine w pd branchName md line = Inr md) \<and>
   (TrimSpace line \<noteq> [] \<and> CHR '' '' \<in> set line \<longrightarrow>
      (\<exists>h p. line = h @ CHR '' '' # p \<and> CHR '' '' \<notin> set h \<and>
             SplitN line (CHR '' '') 2 = [h, p] \<and>
             parseLine line = Inr (Some (TrimSpace h, TrimSpace p)) \<and>
             writeLine w pd branchName md line =
               materialize w pd branchName md (TrimSpace h) (TrimSpace p))) \<and>
   (\<forall>ws\<in>set spaceRunes. \<not> prefix ws (TrimSpace s) \<and> \<not> suffix ws (TrimSpace s)) \<and>
   (\<exists>a b. set a \<subseteq> set spaceRunes \<and> set b \<subseteq> set spaceRunes \<and>
          s = concat a @ TrimSpace s @ concat b) \<and>
   ((TrimSpace s = []) = (\<exists>ws. set ws \<subseteq> set spaceRunes \<and> s = concat ws))"
proof (intro conjI impI ballI)
  show "(TrimSpace s = []) = (\<exists>ws. set ws \<subseteq> set spaceRunes \<and> s = concat ws)"
    by (rule TrimSpace_blank_iff)
next
  assume "TrimSpace line = []"
  then show "parseLine line = Inr None" and "writeLine w pd branchName md line = Inr md"
    by (simp_all add: writeLine_def parseLine_blank)
next
  assume a: "TrimSpace line \<noteq> [] \<and> CHR '' '' \<in> set line"
  let ?h = "takeWhile (\<lambda>c. c \<noteq> CHR '' '') line"
  let ?p = "tl (dropWhile (\<lambda>c. c \<noteq> CHR '' '') line)"
  from a have 1: "line = ?h @ CHR '' '' # ?p" and 2: "CHR '' '' \<notin> set ?h"
    using split_at_first[of "CHR '' ''" line] by blast+
  from a have 3: "SplitN line (CHR '' '') 2 = [?h, ?p]" by (simp add: SplitN_2)
  from a have 4: "parseLine line = Inr (Some (TrimSpace ?h, TrimSpace ?p))"
    by (simp add: parseLine_space)
  then have 5: "writeLine w pd branchName md line =
      materialize w pd branchName md (TrimSpace ?h) (TrimSpace ?p)"
    by (simp add: writeLine_def)
  from 1 2 3 4 5
  show "\<exists>h p. line = h @ CHR '' '' # p \<and> CHR '' '' \<notin> set h \<and>
             SplitN line (CHR '' '') 2 = [h, p] \<and>
             parseLine line = Inr (Some (TrimSpace h, TrimSpace p)) \<and>
             writeLine w pd branchName md line =
               materialize w pd branchName md (TrimSpace h) (TrimSpace p)"
    by blast
next
  fix ws assume "ws \<in> set spaceRunes"
  then show "\<not> prefix ws (TrimSpace s)" and "\<not> suffix ws (TrimSpace s)"
    by (rule TrimSpace_trimmed)+
next
  show "\<exists>a b. set a \<subseteq> set spaceRunes \<and> set b \<subseteq> set spaceRunes \<and>
          s = concat a @ TrimSpace s @ concat b"
    by (rule TrimSpace_decomp)
qed

theorem parseLine_fields_witness:
  "TrimSpace [CHR 0x20, CHR 0x09] = [] \<and> parseLine [CHR 0x20, CHR 0x09] = Inr None \<and>
   writeLine exampleWorld examplePd ''c8'' exampleMd [CHR 0x20, CHR 0x09] = Inr exampleMd \<and>
   TrimSpace ''deadbeef  /SOURCES/a.tar.gz '' \<noteq> [] \<and>
   CHR '' '' \<in> set ''deadbeef  /SOURCES/a.tar.gz '' \<and>
   (\<exists>h p. ''deadbeef  /SOURCES/a.tar.gz '' = h @ CHR '' '' # p \<and> CHR '' '' \<notin> set h \<and>
          parseLine ''deadbeef  /SOURCES/a.tar.gz '' = Inr (Some (TrimSpace h, TrimSpace p))) \<and>
   parseLine ''deadbeef  /SOURCES/a.tar.gz '' = Inr (Some (''deadbeef'', ''/SOURCES/a.tar.gz'')) \<and>
   [CHR 0x20] \<in> set spaceRunes \<and> \<not> prefix [CHR 0x20] (TrimSpace ''  a b  '') \<and>
   \<not> suffix [CHR 0x20] (TrimSpace ''  a b  '')"
proof -
  have b: "TrimSpace [CHR 0x20, CHR 0x09] = []" by code_simp
  have n: "TrimSpace ''deadbeef  /SOURCES/a.tar.gz '' \<noteq> [] \<and>
           CHR '' '' \<in> set ''deadbeef  /SOURCES/a.tar.gz ''" by code_simp
  have e: "parseLine ''deadbeef  /SOURCES/a.tar.gz '' =
           Inr (Some (''deadbeef'', ''/SOURCES/a.tar.gz''))" by code_simp
  have m: "[CHR 0x20] \<in> set spaceRunes" by (simp add: spaceRunes_def)
  note t1 = parseLine_fields[of "[CHR 0x20, CHR 0x09]" exampleWorld examplePd "''c8''" exampleMd "''  a b  ''"]
  note t2 = parseLine_fields[of "''deadbeef  /SOURCES/a.tar.gz ''" exampleWorld examplePd "''c8''"
      exampleMd "''  a b  ''"]
  from t1 b have 1: "parseLine [CHR 0x20, CHR 0x09] = Inr None \<and>
    writeLine exampleWorld examplePd ''c8'' exampleMd [CHR 0x20, CHR 0x09] = Inr exampleMd"
    by blast
  from t2 n have 2: "\<exists>h p. ''deadbeef  /SOURCES/a.tar.gz '' = h @ CHR '' '' # p \<and> CHR '' '' \<notin> set h \<and>
          parseLine ''deadbeef  /SOURCES/a.tar.gz '' = Inr (Some (TrimSpace h, TrimSpace p))"
    by blast
  from t2 m have 3: "\<not> prefix [CHR 0x20] (TrimSpace ''  a b  '') \<and>
   \<not> suffix [CHR 0x20] (TrimSpace ''  a b  '')" by blast
  from b n e m 1 2 3 show ?thesis by blast
qed

section \<open>The latest tag of each component\<close>

lemma candidate_unique: "candidate re pd k tag \<Longrightarrow> candidate re pd k' tag \<Longrightarrow> k = k'"
  by (auto simp: candidate_def split: option.splits)

lemma candidate_component:
  "candidate re pd k tag \<Longrightarrow> component re (remote (targetOf tag)) = Some k"
  by (auto simp: candidate_def component_def targetOf_def split: option.splits)

lemma tagAdd_not_candidate: "\<forall>k. \<not> candidate re pd k tag \<Longrightarrow> tagAdd re pd lt tag = lt"
  by (auto simp: tagAdd_def candidate_def Let_def split: option.splits)

lemma tagAdd_candidate:
  "candidate re pd k tag \<Longrightarrow>
   tagAdd re pd lt tag =
     (if (case map_of lt k of None \<Rightarrow> False | Some existing \<Rightarrow> when' existing > When (Tagger tag))
      then lt else AList.update k (targetOf tag) lt)"
  by (auto simp: tagAdd_def candidate_def targetOf_def Let_def split: option.splits)

lemma map_of_tagAdd:
  "map_of (tagAdd re pd lt tag) k =
     (if candidate re pd k tag \<and>
         (case map_of lt k of None \<Rightarrow> True | Some existing \<Rightarrow> when' existing \<le> When (Tagger tag))
      then Some (targetOf tag) else map_of lt k)"
proof (cases "\<exists>k'. candidate re pd k' tag")
  case False
  then show ?thesis by (simp add: tagAdd_not_candidate)
next
  case True
  then obtain k' where k': "candidate re pd k' tag" by blast
  show ?thesis
  proof (cases "k = k'")
    case True
    with k' show ?thesis
      by (auto simp: tagAdd_candidate update_conv' split: option.splits)
  next
    case False
    with k' have "\<not> candidate re pd k tag" using candidate_unique by blast
    with k' False show ?thesis
      by (auto simp: tagAdd_candidate update_conv' split: option.splits)
  qed
qed

lemma distinct_tagAdd: "distinct (map fst lt) \<Longrightarrow> distinct (map fst (tagAdd re pd lt tag))"
  by (cases "\<exists>k'. candidate re pd k' tag")
     (auto simp: tagAdd_not_candidate tagAdd_candidate distinct_update split: if_splits)

lemma distinct_foldl_tagAdd:
  "distinct (map fst lt) \<Longrightarrow> distinct (map fst (foldl (tagAdd re pd) lt tags))"
  by (induction tags arbitrary: lt) (simp_all add: distinct_tagAdd)

lemma foldl_tagAdd_inv:
  "map_of (foldl (tagAdd re pd) [] tags) k =
     None \<and> (\<forall>t\<in>set tags. \<not> candidate re pd k t) \<or>
   (\<exists>t. map_of (foldl (tagAdd re pd) [] tags) k = Some (targetOf t) \<and> latest re pd k tags t)"
proof (induction tags rule: rev_induct)
  case Nil
  then show ?case by simp
next
  case (snoc x xs)
  let ?lt = "foldl (tagAdd re pd) [] xs"
  have step: "map_of (foldl (tagAdd re pd) [] (xs @ [x])) k =
     (if candidate re pd k x \<and>
         (case map_of ?lt k of None \<Rightarrow> True | Some existing \<Rightarrow> when' existing \<le> When (Tagger x))
      then Some (targetOf x) else map_of ?lt k)"
    by (simp add: map_of_tagAdd)
  from snoc show ?case
  proof
    assume a: "map_of ?lt k = None \<and> (\<forall>t\<in>set xs. \<not> candidate re pd k t)"
    show ?thesis
    proof (cases "candidate re pd k x")
      case True
      with a step have "map_of (foldl (tagAdd re pd) [] (xs @ [x])) k = Some (targetOf x)"
        by simp
      moreover from a True have "latest re pd k (xs @ [x]) x"
        by (auto simp: latest_def)
      ultimately show ?thesis by blast
    next
      case False
      with a step show ?thesis by auto
    qed
  next
    assume "\<exists>t. map_of ?lt k = Some (targetOf t) \<and> latest re pd k xs t"
    then obtain t where t: "map_of ?lt k = Some (targetOf t)" "latest re pd k xs t" by blast
    show ?thesis
    proof (cases "candidate re pd k x \<and> When (Tagger t) \<le> When (Tagger x)")
      case True
      with t step have "map_of (foldl (tagAdd re pd) [] (xs @ [x])) k = Some (targetOf x)"
        by (simp add: targetOf_def)
      moreover from t(2) True have "latest re pd k (xs @ [x]) x"
        by (fastforce simp: latest_def)
      ultimately show ?thesis by blast
    next
      case False
      with t step have "map_of (foldl (tagAdd re pd) [] (xs @ [x])) k = Some (targetOf t)"
        by (auto simp: targetOf_def)
      moreover from t(2) False have "latest re pd k (xs @ [x]) t"
        by (fastforce simp: latest_def)
      ultimately show ?thesis by blast
    qed
  qed
qed


lemma filter_key_distinct:
  "distinct (map fst al) \<Longrightarrow> map_of al k = Some v \<Longrightarrow> filter (\<lambda>p. fst p = k) al = [(k, v)]"
proof (induction al)
  case Nil
  then show ?case by simp
next
  case (Cons p ps)
  show ?case
  proof (cases "fst p = k")
    case True
    with Cons.prems have "p = (k, v)" by (cases p) simp
    moreover have "filter (\<lambda>q. fst q = k) ps = []"
    proof -
      from Cons.prems(1) have "fst p \<notin> fst ` set ps" by simp
      with True have "\<forall>q\<in>set ps. fst q \<noteq> k" by (auto intro: rev_image_eqI)
      then show ?thesis by (simp add: filter_empty_conv)
    qed
    ultimately show ?thesis by simp
  next
    case False
    with Cons show ?thesis by simp
  qed
qed

lemma mset_singleton_list: "mset xs = {#x#} \<Longrightarrow> xs = [x]"
  by (cases xs) auto

lemma entries_of_latestTags:
  assumes "(k', e) \<in> set (foldl (tagAdd re pd) [] tags)"
  shows "\<exists>t. e = targetOf t \<and> latest re pd k' tags t"
proof -
  have "distinct (map fst (foldl (tagAdd re pd) [] tags))"
    by (rule distinct_foldl_tagAdd) simp
  with assms have "map_of (foldl (tagAdd re pd) [] tags) k' = Some e" by simp
  with foldl_tagAdd_inv[of re pd tags k'] show ?thesis by auto
qed

lemma RetrieveSource_tags:
  assumes "\<not> Init_err env" "\<not> Worktree_err env" "\<not> CreateRemote_err env" "\<not> Fetch_err env"
    and "TagObjects env = Some tags"
    and "foldl (tagAdd re pd) [] tags \<noteq> []"
  shows "\<exists>lg. RetrieveSource re pd env =
           Inr (lg, map remote (sort_key when' (rangeOrder env (map snd (foldl (tagAdd re pd) [] tags)))))"
  using assms by (simp add: RetrieveSource_def resolveTags_def Let_def)

text \<open>
  Claim C2. Let the tag objects hold at least one candidate for the component \<open>k\<close>,
  and let go-git raise no error. Then \<open>RetrieveSource\<close> returns, and among the
  references it returns exactly one has the component \<open>k\<close>: the reference of a
  candidate for \<open>k\<close> whose timestamp no other candidate for \<open>k\<close> exceeds. When every
  tag is a candidate for \<open>k\<close> that reference is the whole result; in particular, of two
  candidates with timestamps \<open>t1 < t2\<close> only the reference of the second is returned,
  in whichever order the tags are visited.
\<close>

theorem RetrieveSource_latest_per_component:
  assumes "\<not> Init_err env" "\<not> Worktree_err env" "\<not> CreateRemote_err env" "\<not> Fetch_err env"
    and "TagObjects env = Some tags"
    and "\<forall>xs. mset (rangeOrder env xs) = mset xs"
    and "\<exists>t\<in>set tags. candidate re pd k t"
  shows "\<exists>lg branches t. RetrieveSource re pd env = Inr (lg, branches) \<and>
           latest re pd k tags t \<and>
           filter (\<lambda>ref. component re ref = Some k) branches = [''refs/tags/'' @ Name t] \<and>
           ((\<forall>t'\<in>set tags. candidate re pd k t') \<longrightarrow> branches = [''refs/tags/'' @ Name t]) \<and>
           (\<forall>t1 t2. set tags = {t1, t2} \<and> candidate re pd k t1 \<and> candidate re pd k t2 \<and>
                    When (Tagger t1) < When (Tagger t2) \<longrightarrow>
                    branches = [''refs/tags/'' @ Name t2])"
proof -
  let ?lt = "foldl (tagAdd re pd) [] tags"
  let ?vals = "rangeOrder env (map snd ?lt)"
  let ?sorted = "sort_key when' ?vals"
  let ?P = "\<lambda>ref. component re ref = Some k"
  from assms(7) foldl_tagAdd_inv[of re pd tags k]
  obtain t where t: "map_of ?lt k = Some (targetOf t)" "latest re pd k tags t" by auto
  then have ne: "?lt \<noteq> []" by auto
  from RetrieveSource_tags[OF assms(1-5) ne]
  obtain lg where rs: "RetrieveSource re pd env = Inr (lg, map remote ?sorted)" by blast
  have dist: "distinct (map fst ?lt)" by (rule distinct_foldl_tagAdd) simp
  have key: "?P (remote (snd p)) \<longleftrightarrow> fst p = k" if "p \<in> set ?lt" for p
  proof -
    from that entries_of_latestTags[of "fst p" "snd p" re pd tags]
    obtain t' where "snd p = targetOf t'" "latest re pd (fst p) tags t'" by auto
    then have "component re (remote (snd p)) = Some (fst p)"
      using candidate_component[of re pd "fst p" t'] by (simp add: latest_def)
    then show ?thesis by auto
  qed
  then have "filter (\<lambda>p. ?P (remote (snd p))) ?lt = filter (\<lambda>p. fst p = k) ?lt"
    by (auto intro: filter_cong)
  also have "\<dots> = [(k, targetOf t)]"
    using filter_key_distinct[OF dist t(1)] .
  finally have f: "filter (\<lambda>p. ?P (remote (snd p))) ?lt = [(k, targetOf t)]" .
  have perm: "mset ?sorted = mset (map snd ?lt)"
    using assms(6) by simp
  have "mset (filter (\<lambda>e. ?P (remote e)) ?sorted) = mset (filter (\<lambda>e. ?P (remote e)) (map snd ?lt))"
    using perm by (simp only: mset_filter)
  also have "filter (\<lambda>e. ?P (remote e)) (map snd ?lt) = map snd (filter (\<lambda>p. ?P (remote (snd p))) ?lt)"
    by (simp add: filter_map comp_def)
  finally have "mset (filter (\<lambda>e. ?P (remote e)) ?sorted) = {#targetOf t#}"
    using f by simp
  then have "filter (\<lambda>e. ?P (remote e)) ?sorted = [targetOf t]"
    by (rule mset_singleton_list)
  then have one: "filter ?P (map remote ?sorted) = [''refs/tags/'' @ Name t]"
    by (simp add: filter_map comp_def targetOf_def)
  have only: "map remote ?sorted = [''refs/tags/'' @ Name t]"
    if all: "\<forall>t'\<in>set tags. candidate re pd k t'"
  proof -
    have "fst p = k" if "p \<in> set ?lt" for p
    proof -
      from that entries_of_latestTags[of "fst p" "snd p" re pd tags]
      obtain t' where "latest re pd (fst p) tags t'" by auto
      then have "t' \<in> set tags" "candidate re pd (fst p) t'" by (auto simp: latest_def)
      with all show ?thesis using candidate_unique by blast
    qed
    then have "filter (\<lambda>p. fst p = k) ?lt = ?lt" by (simp add: filter_id_conv)
    with filter_key_distinct[OF dist t(1)] have "?lt = [(k, targetOf t)]" by simp
    then have "mset ?sorted = {#targetOf t#}" using perm by simp
    then have "?sorted = [targetOf t]" by (rule mset_singleton_list)
    then show ?thesis by (simp add: targetOf_def)
  qed
  show ?thesis
  proof (intro exI conjI impI allI)
    show "RetrieveSource re pd env = Inr (lg, map remote ?sorted)" by (rule rs)
    show "latest re pd k tags t" by (rule t(2))
    show "filter ?P (map remote ?sorted) = [''refs/tags/'' @ Name t]" by (rule one)
    show "map remote ?sorted = [''refs/tags/'' @ Name t]"
      if "\<forall>t'\<in>set tags. candidate re pd k t'" using that by (rule only)
    show "map remote ?sorted = [''refs/tags/'' @ Name t2]"
      if two: "set tags = {t1, t2} \<and> candidate re pd k t1 \<and> candidate re pd k t2 \<and>
               When (Tagger t1) < When (Tagger t2)" for t1 t2
    proof -
      from two have "\<forall>t'\<in>set tags. candidate re pd k t'" by auto
      then have b: "map remote ?sorted = [''refs/tags/'' @ Name t]" by (rule only)
      from t(2) two have "t \<in> {t1, t2}" and "When (Tagger t2) \<le> When (Tagger t)"
        by (auto simp: latest_def)
      with two have "t = t2" by auto
      with b show ?thesis by simp
    qed
  qed
qed

theorem RetrieveSource_latest_per_component_witness:
  "\<not> Init_err exampleEnv \<and> \<not> Worktree_err exampleEnv \<and> \<not> CreateRemote_err exampleEnv \<and>
   \<not> Fetch_err exampleEnv \<and>
   TagObjects exampleEnv = Some [\<lparr>Name = ''imports/c8.bash-2'', Tagger = \<lparr>When = 20\<rparr>\<rparr>,
                                 \<lparr>Name = ''imports/c8s.bash-1'', Tagger = \<lparr>When = 15\<rparr>\<rparr>,
                                 \<lparr>Name = ''imports/c8.bash-1'', Tagger = \<lparr>When = 10\<rparr>\<rparr>] \<and>
   (\<forall>xs. mset (rangeOrder exampleEnv xs) = mset xs) \<and>
   candidate specTagImportRegex examplePd ''c8'' \<lparr>Name = ''imports/c8.bash-1'', Tagger = \<lparr>When = 10\<rparr>\<rparr> \<and>
   candidate specTagImportRegex examplePd ''c8'' \<lparr>Name = ''imports/c8.bash-2'', Tagger = \<lparr>When = 20\<rparr>\<rparr> \<and>
   (\<exists>lg branches (t::Tag). RetrieveSource specTagImportRegex examplePd exampleEnv = Inr (lg, branches) \<and>
       filter (\<lambda>ref. component specTagImportRegex ref = Some ''c8'') branches =
         [''refs/tags/'' @ Name t]) \<and>
   (\<exists>lg. RetrieveSource specTagImportRegex examplePd exampleEnv =
       Inr (lg, [''refs/tags/imports/c8s.bash-1'', ''refs/tags/imports/c8.bash-2''])) \<and>
   TagObjects twoTagsEnv = Some [\<lparr>Name = ''imports/c8.bash-2'', Tagger = \<lparr>When = 20\<rparr>\<rparr>,
                                 \<lparr>Name = ''imports/c8.bash-1'', Tagger = \<lparr>When = 10\<rparr>\<rparr>] \<and>
   (\<exists>lg. RetrieveSource specTagImportRegex examplePd twoTagsEnv =
       Inr (lg, [''refs/tags/imports/c8.bash-2'']))"
proof -
  let ?tags = "[\<lparr>Name = ''imports/c8.bash-2'', Tagger = \<lparr>When = 20\<rparr>\<rparr>,
                \<lparr>Name = ''imports/c8s.bash-1'', Tagger = \<lparr>When = 15\<rparr>\<rparr>,
                \<lparr>Name = ''imports/c8.bash-1'', Tagger = \<lparr>When = 10\<rparr>\<rparr>]"
  have e: "\<not> Init_err exampleEnv" "\<not> Worktree_err exampleEnv" "\<not> CreateRemote_err exampleEnv"
    "\<not> Fetch_err exampleEnv" "TagObjects exampleEnv = Some ?tags"
    by (simp_all add: exampleEnv_def)
  have p: "\<forall>xs. mset (rangeOrder exampleEnv xs) = mset xs"
    by (simp add: exampleEnv_def)
  have c1: "candidate specTagImportRegex examplePd ''c8'' \<lparr>Name = ''imports/c8.bash-1'', Tagger = \<lparr>When = 10\<rparr>\<rparr>"
    by code_simp
  have c2: "candidate specTagImportRegex examplePd ''c8'' \<lparr>Name = ''imports/c8.bash-2'', Tagger = \<lparr>When = 20\<rparr>\<rparr>"
    by code_simp
  from c1 have ex: "\<exists>t\<in>set ?tags. candidate specTagImportRegex examplePd ''c8'' t" by simp
  have r: "\<exists>lg branches (t::Tag). RetrieveSource specTagImportRegex examplePd exampleEnv = Inr (lg, branches) \<and>
       filter (\<lambda>ref. component specTagImportRegex ref = Some ''c8'') branches =
         [''refs/tags/'' @ Name t]"
    using RetrieveSource_latest_per_component[OF e p ex] by blast
  have v: "\<exists>lg. RetrieveSource specTagImportRegex examplePd exampleEnv =
       Inr (lg, [''refs/tags/imports/c8s.bash-1'', ''refs/tags/imports/c8.bash-2''])"
  proof -
    have "case RetrieveSource specTagImportRegex examplePd exampleEnv of
            Inl _ \<Rightarrow> False
          | Inr (lg, branches) \<Rightarrow>
              branches = [''refs/tags/imports/c8s.bash-1'', ''refs/tags/imports/c8.bash-2'']"
      by code_simp
    then show ?thesis by (auto split: sum.splits)
  qed
  have two: "TagObjects twoTagsEnv = Some [\<lparr>Name = ''imports/c8.bash-2'', Tagger = \<lparr>When = 20\<rparr>\<rparr>,
                                 \<lparr>Name = ''imports/c8.bash-1'', Tagger = \<lparr>When = 10\<rparr>\<rparr>] \<and>
   (\<exists>lg. RetrieveSource specTagImportRegex examplePd twoTagsEnv =
       Inr (lg, [''refs/tags/imports/c8.bash-2'']))"
  proof -
    let ?t1 = "\<lparr>Name = ''imports/c8.bash-1'', Tagger = \<lparr>When = 10\<rparr>\<rparr>"
    let ?t2 = "\<lparr>Name = ''imports/c8.bash-2'', Tagger = \<lparr>When = 20\<rparr>\<rparr>"
    have e: "\<not> Init_err twoTagsEnv" "\<not> Worktree_err twoTagsEnv" "\<not> CreateRemote_err twoTagsEnv"
      "\<not> Fetch_err twoTagsEnv" "TagObjects twoTagsEnv = Some [?t2, ?t1]"
      by (simp_all add: twoTagsEnv_def exampleEnv_def)
    have p: "\<forall>xs. mset (rangeOrder twoTagsEnv xs) = mset xs"
      by (simp add: twoTagsEnv_def exampleEnv_def)
    have c1: "candidate specTagImportRegex examplePd ''c8'' ?t1" by code_simp
    have c2: "candidate specTagImportRegex examplePd ''c8'' ?t2" by code_simp
    from c1 have ex: "\<exists>t\<in>set [?t2, ?t1]. candidate specTagImportRegex examplePd ''c8'' t" by simp
    have s: "set [?t2, ?t1] = {?t1, ?t2}" by (simp add: insert_commute)
    have lt: "When (Tagger ?t1) < When (Tagger ?t2)" by simp
    from s c1 c2 lt
    have two: "set [?t2, ?t1] = {?t1, ?t2} \<and> candidate specTagImportRegex examplePd ''c8'' ?t1 \<and>
               candidate specTagImportRegex examplePd ''c8'' ?t2 \<and>
               When (Tagger ?t1) < When (Tagger ?t2)"
      by (intro conjI)
    from RetrieveSource_latest_per_component[OF e p ex]
    obtain lg branches where r: "RetrieveSource specTagImportRegex examplePd twoTagsEnv = Inr (lg, branches)"
      and imp: "\<forall>t1 t2. set [?t2, ?t1] = {t1, t2} \<and> candidate specTagImportRegex examplePd ''c8'' t1 \<and>
                   candidate specTagImportRegex examplePd ''c8'' t2 \<and>
                   When (Tagger t1) < When (Tagger t2) \<longrightarrow>
                   branches = [''refs/tags/'' @ Name t2]"
      by (elim exE conjE) (rule that)
    from imp[rule_format, OF two] have "branches = [''refs/tags/imports/c8.bash-2'']" by simp
    with r have "\<exists>lg. RetrieveSource specTagImportRegex examplePd twoTagsEnv =
         Inr (lg, [''refs/tags/imports/c8.bash-2''])" by simp
    with e(5) show ?thesis by (intro conjI)
  qed
  from e p c1 c2 r v two[THEN conjunct1] two[THEN conjunct2] show ?thesis by (intro conjI)
qed

section \<open>Replacing an entry\<close>

text \<open>
  Claim C5, as stated, fails on a tie: the entry of the component has the timestamp of
  the new tag, which is not earlier than it, and \<open>tagAdd\<close> replaces the entry.
\<close>

theorem tagAdd_tie_counterexample:
  "candidate specTagImportRegex examplePd ''c8''
     \<lparr>Name = ''imports/c8.bash-2'', Tagger = \<lparr>When = 10\<rparr>\<rparr> \<and>
   map_of [(''c8'', \<lparr>remote = ''refs/tags/imports/c8.bash-1'', when' = 10\<rparr>)] ''c8'' =
     Some \<lparr>remote = ''refs/tags/imports/c8.bash-1'', when' = 10\<rparr> \<and>
   when' \<lparr>remote = ''refs/tags/imports/c8.bash-1'', when' = 10\<rparr> \<ge>
     When (Tagger \<lparr>Name = ''imports/c8.bash-2'', Tagger = \<lparr>When = 10\<rparr>\<rparr>) \<and>
   tagAdd specTagImportRegex examplePd
     [(''c8'', \<lparr>remote = ''refs/tags/imports/c8.bash-1'', when' = 10\<rparr>)]
     \<lparr>Name = ''imports/c8.bash-2'', Tagger = \<lparr>When = 10\<rparr>\<rparr> =
   [(''c8'', \<lparr>remote = ''refs/tags/imports/c8.bash-2'', when' = 10\<rparr>)]"
  by code_simp

text \<open>
  Claim C5, amended. When the component of a new candidate already has an entry, the
  entry is kept, and the new tag dropped, exactly when the timestamp of the entry is
  strictly later than that of the new tag. Otherwise, the new timestamp being later
  or the same, the entry is replaced by the new tag. The entries of the other
  components are untouched.
\<close>

theorem tagAdd_keeps_strictly_later:
  assumes "candidate re pd k tag" and "map_of latestTags k = Some existing"
  shows "(when' existing > When (Tagger tag) \<longrightarrow> tagAdd re pd latestTags tag = latestTags) \<and>
         (when' existing \<le> When (Tagger tag) \<longrightarrow>
            tagAdd re pd latestTags tag =
              AList.update k \<lparr>remote = ''refs/tags/'' @ Name tag, when' = When (Tagger tag)\<rparr>
                latestTags \<and>
            map_of (tagAdd re pd latestTags tag) k =
              Some \<lparr>remote = ''refs/tags/'' @ Name tag, when' = When (Tagger tag)\<rparr>) \<and>
         (\<forall>k'. k' \<noteq> k \<longrightarrow> map_of (tagAdd re pd latestTags tag) k' = map_of latestTags k')"
proof (intro conjI impI allI)
  assume "when' existing > When (Tagger tag)"
  with assms show "tagAdd re pd latestTags tag = latestTags"
    by (simp add: tagAdd_candidate)
next
  assume le: "when' existing \<le> When (Tagger tag)"
  with assms show "tagAdd re pd latestTags tag =
      AList.update k \<lparr>remote = ''refs/tags/'' @ Name tag, when' = When (Tagger tag)\<rparr> latestTags"
    by (simp add: tagAdd_candidate targetOf_def)
  from le assms show "map_of (tagAdd re pd latestTags tag) k =
      Some \<lparr>remote = ''refs/tags/'' @ Name tag, when' = When (Tagger tag)\<rparr>"
    by (simp add: map_of_tagAdd targetOf_def)
next
  fix k' assume "k' \<noteq> k"
  with assms(1) have "\<not> candidate re pd k' tag" using candidate_unique by blast
  then show "map_of (tagAdd re pd latestTags tag) k' = map_of latestTags k'"
    by (simp add: map_of_tagAdd)
qed

theorem tagAdd_keeps_strictly_later_witness:
  "candidate specTagImportRegex examplePd ''c8''
     \<lparr>Name = ''imports/c8.bash-2'', Tagger = \<lparr>When = 10\<rparr>\<rparr> \<and>
   map_of [(''c8'', \<lparr>remote = ''refs/tags/imports/c8.bash-1'', when' = 11\<rparr>)] ''c8'' =
     Some \<lparr>remote = ''refs/tags/imports/c8.bash-1'', when' = 11\<rparr> \<and>
   tagAdd specTagImportRegex examplePd
     [(''c8'', \<lparr>remote = ''refs/tags/imports/c8.bash-1'', when' = 11\<rparr>)]
     \<lparr>Name = ''imports/c8.bash-2'', Tagger = \<lparr>When = 10\<rparr>\<rparr> =
   [(''c8'', \<lparr>remote = ''refs/tags/imports/c8.bash-1'', when' = 11\<rparr>)] \<and>
   map_of [(''c8'', \<lparr>remote = ''refs/tags/imports/c8.bash-1'', when' = 9\<rparr>),
           (''c9'', \<lparr>remote = ''refs/tags/imports/c9.bash-1'', when' = 3\<rparr>)] ''c8'' =
     Some \<lparr>remote = ''refs/tags/imports/c8.bash-1'', when' = 9\<rparr> \<and>
   map_of (tagAdd specTagImportRegex examplePd
     [(''c8'', \<lparr>remote = ''refs/tags/imports/c8.bash-1'', when' = 9\<rparr>),
      (''c9'', \<lparr>remote = ''refs/tags/imports/c9.bash-1'', when' = 3\<rparr>)]
     \<lparr>Name = ''imports/c8.bash-2'', Tagger = \<lparr>When = 10\<rparr>\<rparr>) ''c8'' =
     Some \<lparr>remote = ''refs/tags/imports/c8.bash-2'', when' = 10\<rparr> \<and>
   map_of (tagAdd specTagImportRegex examplePd
     [(''c8'', \<lparr>remote = ''refs/tags/imports/c8.bash-1'', when' = 9\<rparr>),
      (''c9'', \<lparr>remote = ''refs/tags/imports/c9.bash-1'', when' = 3\<rparr>)]
     \<lparr>Name = ''imports/c8.bash-2'', Tagger = \<lparr>When = 10\<rparr>\<rparr>) ''c9'' =
     Some \<lparr>remote = ''refs/tags/imports/c9.bash-1'', when' = 3\<rparr>"
proof -
  let ?tag = "\<lparr>Name = ''imports/c8.bash-2'', Tagger = \<lparr>When = 10\<rparr>\<rparr>"
  let ?later = "[(''c8'', \<lparr>remote = ''refs/tags/imports/c8.bash-1'', when' = 11\<rparr>)]"
  let ?earlier = "[(''c8'', \<lparr>remote = ''refs/tags/imports/c8.bash-1'', when' = 9\<rparr>),
                   (''c9'', \<lparr>remote = ''refs/tags/imports/c9.bash-1'', when' = 3\<rparr>)]"
  have c: "candidate specTagImportRegex examplePd ''c8'' ?tag" by code_simp
  have m1: "map_of ?later ''c8'' = Some \<lparr>remote = ''refs/tags/imports/c8.bash-1'', when' = 11\<rparr>"
    by simp
  have m2: "map_of ?earlier ''c8'' = Some \<lparr>remote = ''refs/tags/imports/c8.bash-1'', when' = 9\<rparr>"
    by simp
  from tagAdd_keeps_strictly_later[OF c m1]
  have a: "tagAdd specTagImportRegex examplePd ?later ?tag = ?later" by simp
  from tagAdd_keeps_strictly_later[OF c m2]
  have b: "map_of (tagAdd specTagImportRegex examplePd ?earlier ?tag) ''c8'' =
             Some \<lparr>remote = ''refs/tags/imports/c8.bash-2'', when' = 10\<rparr>"
    and d: "map_of (tagAdd specTagImportRegex examplePd ?earlier ?tag) ''c9'' =
             Some \<lparr>remote = ''refs/tags/imports/c9.bash-1'', when' = 3\<rparr>"
    by simp_all
  from c m1 m2 a b d show ?thesis by (intro conjI)
qed

section \<open>The fallback on the references of the remote\<close>

lemma listLoop_eq:
  "listLoop re pd co (lg, lt) list =
     (lg @ listedFailures co list, foldl (tagAdd re pd) lt (listedTags co list))"
proof (induction list arbitrary: lg lt)
  case Nil
  then show ?case by (simp add: listedFailures_def listedTags_def)
next
  case (Cons ref list)
  show ?case
  proof (cases "refHash ref = 0")
    case True
    with Cons show ?thesis by (simp add: listedFailures_def listedTags_def map_filter_simps)
  next
    case False
    with Cons show ?thesis
      by (cases "co (refHash ref)")
         (simp_all add: listedFailures_def listedTags_def map_filter_simps)
  qed
qed

lemma foldl_tagAdd_no_candidates:
  "\<forall>t\<in>set tags. \<forall>k. \<not> candidate re pd k t \<Longrightarrow> foldl (tagAdd re pd) lt tags = lt"
  by (induction tags arbitrary: lt) (simp_all add: tagAdd_not_candidate)

lemma foldl_tagAdd_Nil_iff:
  "foldl (tagAdd re pd) [] tags = [] \<longleftrightarrow> (\<forall>t\<in>set tags. \<forall>k. \<not> candidate re pd k t)"
proof
  assume e: "foldl (tagAdd re pd) [] tags = []"
  show "\<forall>t\<in>set tags. \<forall>k. \<not> candidate re pd k t"
  proof (intro ballI allI notI)
    fix t k assume "t \<in> set tags" "candidate re pd k t"
    with foldl_tagAdd_inv[of re pd tags k]
    have "\<exists>t. map_of (foldl (tagAdd re pd) [] tags) k = Some (targetOf t)" by auto
    with e show False by simp
  qed
next
  assume "\<forall>t\<in>set tags. \<forall>k. \<not> candidate re pd k t"
  then show "foldl (tagAdd re pd) [] tags = []" by (rule foldl_tagAdd_no_candidates)
qed

lemma branch_head_no_candidate:
  assumes "HasPrefix name ''refs/heads/''"
  shows "\<not> candidate re pd k \<lparr>Name = TrimPrefix name ''refs/tags/'', Tagger = sig\<rparr>"
proof -
  from assms obtain r where n: "name = ''refs/heads/'' @ r"
    by (auto simp: HasPrefix_iff prefix_def)
  then have "TrimPrefix name ''refs/tags/'' = name"
    by (simp add: TrimPrefix_def HasPrefix_def)
  moreover have "\<not> HasPrefix name (''imports/'' @ p)" for p
    using n by (simp add: HasPrefix_def)
  ultimately show ?thesis by (simp add: candidate_def)
qed

lemma listedTags_mem:
  "t \<in> set (listedTags co list) \<Longrightarrow>
   \<exists>ref\<in>set list. \<exists>commit. refHash ref \<noteq> 0 \<and> co (refHash ref) = Some commit \<and>
      t = \<lparr>Name = TrimPrefix (refName ref) ''refs/tags/'', Tagger = Committer commit\<rparr>"
proof (induction list)
  case Nil
  then show ?case by (simp add: listedTags_def)
next
  case (Cons r rs)
  have s: "listedTags co (r # rs) =
     (if refHash r = 0 then listedTags co rs
      else case co (refHash r) of None \<Rightarrow> listedTags co rs
           | Some commit \<Rightarrow> \<lparr>Name = TrimPrefix (refName r) ''refs/tags/'', Tagger = Committer commit\<rparr>
                              # listedTags co rs)"
    by (simp add: listedTags_def split: option.splits)
  show ?case
  proof (cases "t \<in> set (listedTags co rs)")
    case True
    from Cons.IH[OF this] show ?thesis by auto
  next
    case False
    with Cons.prems s have "refHash r \<noteq> 0 \<and> (\<exists>commit. co (refHash r) = Some commit \<and>
        t = \<lparr>Name = TrimPrefix (refName r) ''refs/tags/'', Tagger = Committer commit\<rparr>)"
      by (auto split: if_splits option.splits)
    then show ?thesis by auto
  qed
qed

lemma listed_name_prefix:
  assumes "HasPrefix (TrimPrefix name ''refs/tags/'') (''imports/'' @ p)"
  shows "HasPrefix name (''refs/tags/imports/'' @ p) \<or> HasPrefix name (''imports/'' @ p)"
proof (cases "HasPrefix name ''refs/tags/''")
  case True
  then obtain r where n: "name = ''refs/tags/'' @ r"
    by (auto simp: HasPrefix_iff prefix_def)
  then have "TrimPrefix name ''refs/tags/'' = r" by (simp only: TrimPrefix_append)
  with assms have "prefix (''imports/'' @ p) r" by (simp add: HasPrefix_iff)
  with n have "prefix (''refs/tags/'' @ ''imports/'' @ p) name" by simp
  then show ?thesis by (simp add: HasPrefix_iff)
next
  case False
  then have "TrimPrefix name ''refs/tags/'' = name" by (simp add: TrimPrefix_def)
  with assms show ?thesis by simp
qed

lemma refs_name_not_imports:
  assumes "HasPrefix name ''refs/''"
  shows "\<not> HasPrefix name (''imports/'' @ p)"
proof -
  from assms obtain r where "name = ''refs/'' @ r"
    by (auto simp: HasPrefix_iff prefix_def)
  then show ?thesis by (simp add: HasPrefix_def)
qed

lemma fallback_entries:
  assumes "map_of (foldl (tagAdd re pd) [] (listedTags co list)) k = Some tgt"
  shows "\<exists>ref\<in>set list. \<exists>commit. refHash ref \<noteq> 0 \<and> co (refHash ref) = Some commit \<and>
           (HasPrefix (refName ref) (''refs/tags/imports/'' @ ImportBranchPrefix pd @ Itoa (Version pd)) \<or>
            HasPrefix (refName ref) (''imports/'' @ ImportBranchPrefix pd @ Itoa (Version pd))) \<and>
           component re (''refs/tags/'' @ TrimPrefix (refName ref) ''refs/tags/'') = Some k \<and>
           tgt = \<lparr>remote = ''refs/tags/'' @ TrimPrefix (refName ref) ''refs/tags/'',
                  when' = When (Committer commit)\<rparr>"
proof -
  from foldl_tagAdd_inv[of re pd "listedTags co list" k] assms
  obtain t where t: "tgt = targetOf t" "latest re pd k (listedTags co list) t" by auto
  then have m: "t \<in> set (listedTags co list)" and c: "candidate re pd k t"
    by (simp_all add: latest_def)
  from listedTags_mem[OF m] obtain ref commit where r: "ref \<in> set list" "refHash ref \<noteq> 0"
    "co (refHash ref) = Some commit"
    "t = \<lparr>Name = TrimPrefix (refName ref) ''refs/tags/'', Tagger = Committer commit\<rparr>"
    by blast
  from c r(4) have "HasPrefix (TrimPrefix (refName ref) ''refs/tags/'')
                      (''imports/'' @ ImportBranchPrefix pd @ Itoa (Version pd))"
    by (simp add: candidate_def)
  from listed_name_prefix[OF this]
  have p: "HasPrefix (refName ref) (''refs/tags/imports/'' @ ImportBranchPrefix pd @ Itoa (Version pd)) \<or>
           HasPrefix (refName ref) (''imports/'' @ ImportBranchPrefix pd @ Itoa (Version pd))" .
  from c r(4) have g: "component re (''refs/tags/'' @ TrimPrefix (refName ref) ''refs/tags/'') = Some k"
    by (auto simp: candidate_def component_def split: option.splits)
  from t(1) r(4) have "tgt = \<lparr>remote = ''refs/tags/'' @ TrimPrefix (refName ref) ''refs/tags/'',
                  when' = When (Committer commit)\<rparr>"
    by (simp add: targetOf_def)
  with r p g show ?thesis by blast
qed

text \<open>
  Claim C6, as stated, fails on a branch head: no tag matches, the remote lists the
  head \<open>refs/heads/c8\<close> with a hash other than zero and a readable commit, and the
  fallback produces no candidate reference from it.
\<close>

theorem RetrieveSource_branch_head_counterexample:
  "TagObjects branchOnlyEnv = Some [] \<and>
   Remote_List branchOnlyEnv = Some [\<lparr>refName = ''refs/heads/c8'', refHash = 1\<rparr>] \<and>
   CommitObject branchOnlyEnv 1 = Some \<lparr>Committer = \<lparr>When = 7\<rparr>\<rparr> \<and>
   RetrieveSource specTagImportRegex examplePd branchOnlyEnv = Inr ([], [])"
  by code_simp

text \<open>
  Claim C6, amended. When no tag object is a candidate and the remote can be listed,
  resolution does not abort: the fallback hands to \<open>tagAdd\<close>, for each listed
  reference whose hash is not zero and whose commit can be read, a tag with the name
  of the reference less its prefix \<open>refs/tags/\<close> and with the committer time of the
  commit; a reference with the zero hash is skipped, and a reference whose commit
  cannot be read is logged and skipped. The listed references pass the same test as
  the tag objects, so a branch head \<open>refs/heads/...\<close> never yields a candidate. When
  some tag object is a candidate there is no fallback. Every entry that the fallback
  leaves in \<open>latestTags\<close> comes from a listed reference with a hash other than zero
  and a readable commit, carries the committer time of that commit, and the name of
  that reference starts with \<open>refs/tags/imports/<prefix><version>\<close> or with
  \<open>imports/<prefix><version>\<close>. A reference yields a candidate only when its name
  starts in one of these two ways; a reference under \<open>refs/\<close> whose name does not
  start with \<open>refs/tags/imports/<prefix><version>\<close> yields none and leaves
  \<open>latestTags\<close> as it is.
\<close>

theorem resolveTags_fallback:
  "((\<forall>t\<in>set tags. \<forall>k. \<not> candidate re pd k t) \<and> Remote_List env = Some list \<longrightarrow>
      resolveTags re pd env tags =
        Inr (listedFailures (CommitObject env) list,
             foldl (tagAdd re pd) [] (listedTags (CommitObject env) list))) \<and>
   ((\<exists>t\<in>set tags. \<exists>k. candidate re pd k t) \<longrightarrow>
      resolveTags re pd env tags = Inr ([], foldl (tagAdd re pd) [] tags)) \<and>
   (HasPrefix (refName (ref::Reference)) ''refs/heads/'' \<longrightarrow>
      (\<forall>k. \<not> candidate re pd k \<lparr>Name = TrimPrefix (refName ref) ''refs/tags/'', Tagger = sig\<rparr>) \<and>
      tagAdd re pd latestTags \<lparr>Name = TrimPrefix (refName ref) ''refs/tags/'', Tagger = sig\<rparr> =
        latestTags) \<and>
   (\<forall>k tgt. map_of (foldl (tagAdd re pd) [] (listedTags (CommitObject env) list)) k = Some tgt \<longrightarrow>
      (\<exists>r\<in>set list. \<exists>commit.
          refHash r \<noteq> 0 \<and> CommitObject env (refHash r) = Some commit \<and>
          (HasPrefix (refName r)
             (''refs/tags/imports/'' @ ImportBranchPrefix pd @ Itoa (Version pd)) \<or>
           HasPrefix (refName r) (''imports/'' @ ImportBranchPrefix pd @ Itoa (Version pd))) \<and>
          component re (''refs/tags/'' @ TrimPrefix (refName r) ''refs/tags/'') = Some k \<and>
          tgt = \<lparr>remote = ''refs/tags/'' @ TrimPrefix (refName r) ''refs/tags/'',
                 when' = When (Committer commit)\<rparr>)) \<and>
   ((\<exists>k. candidate re pd k \<lparr>Name = TrimPrefix (refName ref) ''refs/tags/'', Tagger = sig\<rparr>) \<longrightarrow>
      HasPrefix (refName ref) (''refs/tags/imports/'' @ ImportBranchPrefix pd @ Itoa (Version pd)) \<or>
      HasPrefix (refName ref) (''imports/'' @ ImportBranchPrefix pd @ Itoa (Version pd))) \<and>
   (HasPrefix (refName ref) ''refs/'' \<and>
    \<not> HasPrefix (refName ref) (''refs/tags/imports/'' @ ImportBranchPrefix pd @ Itoa (Version pd)) \<longrightarrow>
      (\<forall>k. \<not> candidate re pd k \<lparr>Name = TrimPrefix (refName ref) ''refs/tags/'', Tagger = sig\<rparr>) \<and>
      tagAdd re pd latestTags \<lparr>Name = TrimPrefix (refName ref) ''refs/tags/'', Tagger = sig\<rparr> =
        latestTags)"
proof (intro conjI impI)
  assume a: "(\<forall>t\<in>set tags. \<forall>k. \<not> candidate re pd k t) \<and> Remote_List env = Some list"
  then have "foldl (tagAdd re pd) [] tags = []" by (simp add: foldl_tagAdd_Nil_iff)
  with a show "resolveTags re pd env tags =
        Inr (listedFailures (CommitObject env) list,
             foldl (tagAdd re pd) [] (listedTags (CommitObject env) list))"
    by (simp add: resolveTags_def listLoop_eq)
next
  assume "\<exists>t\<in>set tags. \<exists>k. candidate re pd k t"
  then have "foldl (tagAdd re pd) [] tags \<noteq> []" by (simp add: foldl_tagAdd_Nil_iff)
  then show "resolveTags re pd env tags = Inr ([], foldl (tagAdd re pd) [] tags)"
    by (simp add: resolveTags_def)
next
  assume h: "HasPrefix (refName ref) ''refs/heads/''"
  then show n: "\<forall>k. \<not> candidate re pd k \<lparr>Name = TrimPrefix (refName ref) ''refs/tags/'', Tagger = sig\<rparr>"
    using branch_head_no_candidate by blast
  then show "tagAdd re pd latestTags \<lparr>Name = TrimPrefix (refName ref) ''refs/tags/'', Tagger = sig\<rparr> =
        latestTags"
    by (rule tagAdd_not_candidate)
next
  show "\<forall>k tgt. map_of (foldl (tagAdd re pd) [] (listedTags (CommitObject env) list)) k = Some tgt \<longrightarrow>
      (\<exists>r\<in>set list. \<exists>commit.
          refHash r \<noteq> 0 \<and> CommitObject env (refHash r) = Some commit \<and>
          (HasPrefix (refName r)
             (''refs/tags/imports/'' @ ImportBranchPrefix pd @ Itoa (Version pd)) \<or>
           HasPrefix (refName r) (''imports/'' @ ImportBranchPrefix pd @ Itoa (Version pd))) \<and>
          component re (''refs/tags/'' @ TrimPrefix (refName r) ''refs/tags/'') = Some k \<and>
          tgt = \<lparr>remote = ''refs/tags/'' @ TrimPrefix (refName r) ''refs/tags/'',
                 when' = When (Committer commit)\<rparr>)"
    by (intro allI impI) (rule fallback_entries)
next
  assume "\<exists>k. candidate re pd k \<lparr>Name = TrimPrefix (refName ref) ''refs/tags/'', Tagger = sig\<rparr>"
  then have "HasPrefix (TrimPrefix (refName ref) ''refs/tags/'')
               (''imports/'' @ ImportBranchPrefix pd @ Itoa (Version pd))"
    by (auto simp: candidate_def)
  then show "HasPrefix (refName ref) (''refs/tags/imports/'' @ ImportBranchPrefix pd @ Itoa (Version pd)) \<or>
      HasPrefix (refName ref) (''imports/'' @ ImportBranchPrefix pd @ Itoa (Version pd))"
    by (rule listed_name_prefix)
next
  assume h: "HasPrefix (refName ref) ''refs/'' \<and>
    \<not> HasPrefix (refName ref) (''refs/tags/imports/'' @ ImportBranchPrefix pd @ Itoa (Version pd))"
  show n: "\<forall>k. \<not> candidate re pd k \<lparr>Name = TrimPrefix (refName ref) ''refs/tags/'', Tagger = sig\<rparr>"
  proof (intro allI notI)
    fix k
    assume "candidate re pd k \<lparr>Name = TrimPrefix (refName ref) ''refs/tags/'', Tagger = sig\<rparr>"
    then have "HasPrefix (TrimPrefix (refName ref) ''refs/tags/'')
                 (''imports/'' @ ImportBranchPrefix pd @ Itoa (Version pd))"
      by (simp add: candidate_def)
    from listed_name_prefix[OF this] h
    have "HasPrefix (refName ref) (''imports/'' @ ImportBranchPrefix pd @ Itoa (Version pd))"
      by blast
    with refs_name_not_imports h show False by blast
  qed
  then show "tagAdd re pd latestTags \<lparr>Name = TrimPrefix (refName ref) ''refs/tags/'', Tagger = sig\<rparr> =
        latestTags"
    by (rule tagAdd_not_candidate)
qed


theorem resolveTags_fallback_witness:
  "(\<forall>k. \<not> candidate specTagImportRegex examplePd k \<lparr>Name = ''v1.0'', Tagger = \<lparr>When = 1\<rparr>\<rparr>) \<and>
   Remote_List headsEnv = Some [\<lparr>refName = ''refs/heads/c8'', refHash = 1\<rparr>,
                                 \<lparr>refName = ''refs/tags/imports/c8.bash-3'', refHash = 2\<rparr>,
                                 \<lparr>refName = ''refs/tags/imports/c8.bash-4'', refHash = 0\<rparr>,
                                 \<lparr>refName = ''refs/tags/imports/c8.bash-5'', refHash = 3\<rparr>] \<and>
   resolveTags specTagImportRegex examplePd headsEnv [\<lparr>Name = ''v1.0'', Tagger = \<lparr>When = 1\<rparr>\<rparr>] =
     Inr ([Log ''could not get commit object for ref refs/tags/imports/c8.bash-3''],
          [(''c8'', \<lparr>remote = ''refs/tags/imports/c8.bash-5'', when' = 9\<rparr>)]) \<and>
   candidate specTagImportRegex examplePd ''c8'' \<lparr>Name = ''imports/c8.bash-1'', Tagger = \<lparr>When = 10\<rparr>\<rparr> \<and>
   resolveTags specTagImportRegex examplePd headsEnv
       [\<lparr>Name = ''imports/c8.bash-1'', Tagger = \<lparr>When = 10\<rparr>\<rparr>] =
     Inr ([], [(''c8'', \<lparr>remote = ''refs/tags/imports/c8.bash-1'', when' = 10\<rparr>)]) \<and>
   HasPrefix (refName \<lparr>refName = ''refs/heads/c8'', refHash = 1\<rparr>) ''refs/heads/'' \<and>
   tagAdd specTagImportRegex examplePd []
       \<lparr>Name = TrimPrefix (refName \<lparr>refName = ''refs/heads/c8'', refHash = 1\<rparr>) ''refs/tags/'',
        Tagger = \<lparr>When = 7\<rparr>\<rparr> = [] \<and>
   (\<exists>r\<in>set [\<lparr>refName = ''refs/heads/c8'', refHash = 1\<rparr>,
              \<lparr>refName = ''refs/tags/imports/c8.bash-3'', refHash = 2\<rparr>,
              \<lparr>refName = ''refs/tags/imports/c8.bash-4'', refHash = 0\<rparr>,
              \<lparr>refName = ''refs/tags/imports/c8.bash-5'', refHash = 3\<rparr>].
      \<exists>commit. refHash r \<noteq> 0 \<and> CommitObject headsEnv (refHash r) = Some commit \<and>
        (HasPrefix (refName r) ''refs/tags/imports/c8'' \<or> HasPrefix (refName r) ''imports/c8'') \<and>
        component specTagImportRegex (''refs/tags/'' @ TrimPrefix (refName r) ''refs/tags/'') = Some ''c8'' \<and>
        \<lparr>remote = ''refs/tags/imports/c8.bash-5'', when' = 9\<rparr> =
          \<lparr>remote = ''refs/tags/'' @ TrimPrefix (refName r) ''refs/tags/'',
           when' = When (Committer commit)\<rparr>) \<and>
   candidate specTagImportRegex examplePd ''c8''
       \<lparr>Name = TrimPrefix (refName \<lparr>refName = ''imports/c8.bash-9'', refHash = 5\<rparr>) ''refs/tags/'',
        Tagger = \<lparr>When = 7\<rparr>\<rparr> \<and>
   (HasPrefix (refName \<lparr>refName = ''imports/c8.bash-9'', refHash = 5\<rparr>) ''refs/tags/imports/c8'' \<or>
    HasPrefix (refName \<lparr>refName = ''imports/c8.bash-9'', refHash = 5\<rparr>) ''imports/c8'') \<and>
   HasPrefix (refName \<lparr>refName = ''refs/tags/v1.0'', refHash = 4\<rparr>) ''refs/'' \<and>
   \<not> HasPrefix (refName \<lparr>refName = ''refs/tags/v1.0'', refHash = 4\<rparr>) ''refs/tags/imports/c8'' \<and>
   tagAdd specTagImportRegex examplePd []
       \<lparr>Name = TrimPrefix (refName \<lparr>refName = ''refs/tags/v1.0'', refHash = 4\<rparr>) ''refs/tags/'',
        Tagger = \<lparr>When = 7\<rparr>\<rparr> = []"
proof -
  let ?list = "[\<lparr>refName = ''refs/heads/c8'', refHash = 1\<rparr>,
                \<lparr>refName = ''refs/tags/imports/c8.bash-3'', refHash = 2\<rparr>,
                \<lparr>refName = ''refs/tags/imports/c8.bash-4'', refHash = 0\<rparr>,
                \<lparr>refName = ''refs/tags/imports/c8.bash-5'', refHash = 3\<rparr>]"
  let ?v1 = "\<lparr>Name = ''v1.0'', Tagger = \<lparr>When = 1\<rparr>\<rparr>"
  let ?b1 = "\<lparr>Name = ''imports/c8.bash-1'', Tagger = \<lparr>When = 10\<rparr>\<rparr>"
  let ?head = "\<lparr>refName = ''refs/heads/c8'', refHash = 1\<rparr>"
  let ?bare = "\<lparr>refName = ''imports/c8.bash-9'', refHash = 5\<rparr>"
  let ?other = "\<lparr>refName = ''refs/tags/v1.0'', refHash = 4\<rparr>"
  have i: "Itoa 8 = ''8''" by code_simp
  have P: "ImportBranchPrefix examplePd @ Itoa (Version examplePd) = ''c8''"
    by (simp add: examplePd_def i)
  have n: "\<forall>k. \<not> candidate specTagImportRegex examplePd k ?v1"
    by (simp add: candidate_def HasPrefix_def examplePd_def i)
  have l: "Remote_List headsEnv = Some ?list"
    by (simp add: headsEnv_def)
  have c: "candidate specTagImportRegex examplePd ''c8'' ?b1" by code_simp
  have h: "HasPrefix (refName ?head) ''refs/heads/''" by code_simp
  have v1: "listedFailures (CommitObject headsEnv) ?list =
              [Log ''could not get commit object for ref refs/tags/imports/c8.bash-3'']"
    by code_simp
  have v2: "foldl (tagAdd specTagImportRegex examplePd) [] (listedTags (CommitObject headsEnv) ?list) =
              [(''c8'', \<lparr>remote = ''refs/tags/imports/c8.bash-5'', when' = 9\<rparr>)]"
    by code_simp
  have v3: "foldl (tagAdd specTagImportRegex examplePd) [] [?b1] =
              [(''c8'', \<lparr>remote = ''refs/tags/imports/c8.bash-1'', when' = 10\<rparr>)]"
    by code_simp
  note t1 = resolveTags_fallback[where tags = "[?v1]" and re = specTagImportRegex and pd = examplePd
      and env = headsEnv and list = ?list and ref = ?head and latestTags = "[]"
      and sig = "\<lparr>When = 7\<rparr>"]
  note t2 = resolveTags_fallback[where tags = "[?b1]" and re = specTagImportRegex and pd = examplePd
      and env = headsEnv and list = ?list and ref = ?bare and latestTags = "[]"
      and sig = "\<lparr>When = 7\<rparr>"]
  note t3 = resolveTags_fallback[where tags = "[?v1]" and re = specTagImportRegex and pd = examplePd
      and env = headsEnv and list = ?list and ref = ?other and latestTags = "[]"
      and sig = "\<lparr>When = 7\<rparr>"]
  from t1 n l v1 v2
  have a: "resolveTags specTagImportRegex examplePd headsEnv [?v1] =
     Inr ([Log ''could not get commit object for ref refs/tags/imports/c8.bash-3''],
          [(''c8'', \<lparr>remote = ''refs/tags/imports/c8.bash-5'', when' = 9\<rparr>)])"
    by simp
  from c have ex: "\<exists>t\<in>set [?b1]. \<exists>k. candidate specTagImportRegex examplePd k t" by auto
  from t2 ex have "resolveTags specTagImportRegex examplePd headsEnv [?b1] =
     Inr ([], foldl (tagAdd specTagImportRegex examplePd) [] [?b1])"
    by blast
  with v3
  have b: "resolveTags specTagImportRegex examplePd headsEnv [?b1] =
     Inr ([], [(''c8'', \<lparr>remote = ''refs/tags/imports/c8.bash-1'', when' = 10\<rparr>)])"
    by simp
  from t1 h
  have d: "tagAdd specTagImportRegex examplePd []
       \<lparr>Name = TrimPrefix (refName ?head) ''refs/tags/'', Tagger = \<lparr>When = 7\<rparr>\<rparr> = []"
    by blast
  have "map_of (foldl (tagAdd specTagImportRegex examplePd) []
                  (listedTags (CommitObject headsEnv) ?list)) ''c8'' =
          Some \<lparr>remote = ''refs/tags/imports/c8.bash-5'', when' = 9\<rparr>"
    by (subst v2) simp
  with t1 have "\<exists>r\<in>set ?list. \<exists>commit.
        refHash r \<noteq> 0 \<and> CommitObject headsEnv (refHash r) = Some commit \<and>
        (HasPrefix (refName r)
           (''refs/tags/imports/'' @ ImportBranchPrefix examplePd @ Itoa (Version examplePd)) \<or>
         HasPrefix (refName r) (''imports/'' @ ImportBranchPrefix examplePd @ Itoa (Version examplePd))) \<and>
        component specTagImportRegex (''refs/tags/'' @ TrimPrefix (refName r) ''refs/tags/'') = Some ''c8'' \<and>
        \<lparr>remote = ''refs/tags/imports/c8.bash-5'', when' = 9\<rparr> =
          \<lparr>remote = ''refs/tags/'' @ TrimPrefix (refName r) ''refs/tags/'',
           when' = When (Committer commit)\<rparr>"
    by blast
  then have e: "\<exists>r\<in>set ?list. \<exists>commit.
        refHash r \<noteq> 0 \<and> CommitObject headsEnv (refHash r) = Some commit \<and>
        (HasPrefix (refName r) ''refs/tags/imports/c8'' \<or> HasPrefix (refName r) ''imports/c8'') \<and>
        component specTagImportRegex (''refs/tags/'' @ TrimPrefix (refName r) ''refs/tags/'') = Some ''c8'' \<and>
        \<lparr>remote = ''refs/tags/imports/c8.bash-5'', when' = 9\<rparr> =
          \<lparr>remote = ''refs/tags/'' @ TrimPrefix (refName r) ''refs/tags/'',
           when' = When (Committer commit)\<rparr>"
    by (simp only: P append_assoc[symmetric]) simp
  have g: "candidate specTagImportRegex examplePd ''c8''
       \<lparr>Name = TrimPrefix (refName ?bare) ''refs/tags/'', Tagger = \<lparr>When = 7\<rparr>\<rparr>"
    by code_simp
  then have "\<exists>k. candidate specTagImportRegex examplePd k
       \<lparr>Name = TrimPrefix (refName ?bare) ''refs/tags/'', Tagger = \<lparr>When = 7\<rparr>\<rparr>"
    by blast
  with t2 have "HasPrefix (refName ?bare)
           (''refs/tags/imports/'' @ ImportBranchPrefix examplePd @ Itoa (Version examplePd)) \<or>
         HasPrefix (refName ?bare) (''imports/'' @ ImportBranchPrefix examplePd @ Itoa (Version examplePd))"
    by blast
  then have f: "HasPrefix (refName ?bare) ''refs/tags/imports/c8'' \<or>
                HasPrefix (refName ?bare) ''imports/c8''"
    by (simp add: P)
  have o: "HasPrefix (refName ?other) ''refs/''"
    "\<not> HasPrefix (refName ?other) ''refs/tags/imports/c8''"
    by code_simp+
  then have "HasPrefix (refName ?other) ''refs/'' \<and>
    \<not> HasPrefix (refName ?other)
         (''refs/tags/imports/'' @ ImportBranchPrefix examplePd @ Itoa (Version examplePd))"
    by (simp add: P)
  with t3 have q: "tagAdd specTagImportRegex examplePd []
       \<lparr>Name = TrimPrefix (refName ?other) ''refs/tags/'', Tagger = \<lparr>When = 7\<rparr>\<rparr> = []"
    by blast
  from n l a c b h d e g f o q show ?thesis by (intro conjI)
qed

section \<open>PostProcess: removing the recorded sources\<close>

lemma removeLoop_frame:
  "Some p \<notin> (\<lambda>s. underlyingPath w (IgnoredSource_Name s)) ` set sources \<Longrightarrow>
   Worktree (stateOf (removeLoop w md sources)) p = Worktree md p"
proof (induction sources arbitrary: md)
  case Nil
  then show ?case by simp
next
  case (Cons s ss)
  from Cons.prems have p: "underlyingPath w (IgnoredSource_Name s) \<noteq> Some p"
    and r: "Some p \<notin> (\<lambda>s. underlyingPath w (IgnoredSource_Name s)) ` set ss"
    by auto
  show ?case
  proof (cases "underlyingPath w (IgnoredSource_Name s)")
    case None
    with Cons.IH[OF r] show ?thesis by simp
  next
    case (Some target)
    with p have "target \<noteq> p" by simp
    with Some Cons.IH[OF r] show ?thesis
      by (cases "Worktree md target") simp_all
  qed
qed

lemma removeLoop_ok:
  "\<forall>s\<in>set sources. lookupFile w md (IgnoredSource_Name s) \<noteq> None \<longrightarrow> \<not> Remove_err w (IgnoredSource_Name s) \<Longrightarrow>
   removeLoop w md sources =
     Inr (md\<lparr>Worktree := (\<lambda>p. if Some p \<in> (\<lambda>s. underlyingPath w (IgnoredSource_Name s)) ` set sources
                               then None else Worktree md p)\<rparr>)"
proof (induction sources arbitrary: md)
  case Nil
  then show ?case by simp
next
  case (Cons s ss)
  let ?files = "\<lambda>l. (\<lambda>s. underlyingPath w (IgnoredSource_Name s)) ` set l"
  show ?case
  proof (cases "underlyingPath w (IgnoredSource_Name s)")
    case None
    have "removeLoop w md (s # ss) = removeLoop w md ss" using None by simp
    also have "\<dots> = Inr (md\<lparr>Worktree := (\<lambda>p. if Some p \<in> ?files ss then None else Worktree md p)\<rparr>)"
      using Cons.prems by (intro Cons.IH) simp
    also have "(\<lambda>p. if Some p \<in> ?files ss then None else Worktree md p) =
               (\<lambda>p. if Some p \<in> ?files (s # ss) then None else Worktree md p)"
      using None by (intro ext) simp
    finally show ?thesis .
  next
    case (Some target)
    show ?thesis
    proof (cases "Worktree md target")
      case None
      have "removeLoop w md (s # ss) = removeLoop w md ss" using Some None by simp
      also have "\<dots> = Inr (md\<lparr>Worktree := (\<lambda>p. if Some p \<in> ?files ss then None else Worktree md p)\<rparr>)"
        using Cons.prems by (intro Cons.IH) simp
      also have "(\<lambda>p. if Some p \<in> ?files ss then None else Worktree md p) =
                 (\<lambda>p. if Some p \<in> ?files (s # ss) then None else Worktree md p)"
        using Some None by (intro ext) simp
      finally show ?thesis .
    next
      case (Some content)
      let ?md = "md\<lparr>Worktree := (Worktree md)(target := None)\<rparr>"
      from Some \<open>underlyingPath w (IgnoredSource_Name s) = Some target\<close> Cons.prems
      have "\<not> Remove_err w (IgnoredSource_Name s)" by (simp add: lookupFile_def)
      with Some \<open>underlyingPath w (IgnoredSource_Name s) = Some target\<close>
      have "removeLoop w md (s # ss) = removeLoop w ?md ss" by simp
      also have "\<dots> = Inr (?md\<lparr>Worktree := (\<lambda>p. if Some p \<in> ?files ss then None else Worktree ?md p)\<rparr>)"
      proof (intro Cons.IH ballI impI)
        fix x assume x: "x \<in> set ss" and l: "lookupFile w ?md (IgnoredSource_Name x) \<noteq> None"
        from l have "lookupFile w md (IgnoredSource_Name x) \<noteq> None"
          by (auto simp: lookupFile_def split: option.splits if_splits)
        with x Cons.prems show "\<not> Remove_err w (IgnoredSource_Name x)" by simp
      qed
      also have "(\<lambda>p. if Some p \<in> ?files ss then None else Worktree ?md p) =
                 (\<lambda>p. if Some p \<in> ?files (s # ss) then None else Worktree md p)"
        using \<open>underlyingPath w (IgnoredSource_Name s) = Some target\<close> by (intro ext) auto
      finally show ?thesis by simp
    qed
  qed
qed

lemma lookupFile_removed:
  assumes "\<forall>p. Worktree md' p =
             (if Some p \<in> (\<lambda>s. underlyingPath w (IgnoredSource_Name s)) ` set sources then None
              else Worktree md p)"
  shows "lookupFile w md' name =
           (if \<exists>s\<in>set sources. underlyingPath w (IgnoredSource_Name s) = underlyingPath w name
            then None else lookupFile w md name)"
proof (cases "underlyingPath w name")
  case None
  then show ?thesis by (simp add: lookupFile_def)
next
  case (Some target)
  have "Some target \<in> (\<lambda>s. underlyingPath w (IgnoredSource_Name s)) ` set sources \<longleftrightarrow>
        (\<exists>s\<in>set sources. underlyingPath w (IgnoredSource_Name s) = Some target)"
    by force
  with Some assms show ?thesis by (simp add: lookupFile_def)
qed

text \<open>
  Claim C8. A path names a file as the filesystem of the worktree resolves it, so
  the statement is about names and the files they denote. Whether \<open>PostProcess\<close>
  returns or aborts, a name that does not denote the file of a recorded
  \<open>IgnoredSource\<close> finds what it found before: the same content, or no file as
  before. When \<open>Remove\<close> does not fail on the recorded names that denote a file of the
  tree and the final \<open>Add\<close> does not fail, \<open>PostProcess\<close> returns, the files that the
  recorded names denote are gone and every other name finds what it found before. A
  recorded name that denotes no file of the tree is passed over: when none of them
  denotes one, \<open>PostProcess\<close> returns with the tree as it was, whatever \<open>Remove\<close>
  would have done, and only stages the tree.
\<close>

theorem PostProcess_removes_only_ignored:
  "(\<forall>name. (\<forall>s\<in>set (SourcesToIgnore md).
                underlyingPath w (IgnoredSource_Name s) \<noteq> underlyingPath w name) \<longrightarrow>
        lookupFile w (stateOf (PostProcess w md)) name = lookupFile w md name) \<and>
   ((\<forall>s\<in>set (SourcesToIgnore md).
        lookupFile w md (IgnoredSource_Name s) \<noteq> None \<longrightarrow> \<not> Remove_err w (IgnoredSource_Name s)) \<and>
    \<not> Add_err w \<longrightarrow>
      (\<exists>md'. PostProcess w md = Inr md' \<and>
             (\<forall>name. lookupFile w md' name =
                    (if \<exists>s\<in>set (SourcesToIgnore md).
                          underlyingPath w (IgnoredSource_Name s) = underlyingPath w name
                     then None else lookupFile w md name)))) \<and>
   ((\<forall>s\<in>set (SourcesToIgnore md). lookupFile w md (IgnoredSource_Name s) = None) \<and> \<not> Add_err w \<longrightarrow>
      PostProcess w md = Inr (md\<lparr>Staged := Staged md ++ Worktree md\<rparr>))"
proof (intro conjI impI allI)
  fix name
  assume n: "\<forall>s\<in>set (SourcesToIgnore md).
               underlyingPath w (IgnoredSource_Name s) \<noteq> underlyingPath w name"
  have w: "Worktree (stateOf (PostProcess w md)) = Worktree (stateOf (removeLoop w md (SourcesToIgnore md)))"
    by (cases "removeLoop w md (SourcesToIgnore md)") (auto simp: PostProcess_def)
  show "lookupFile w (stateOf (PostProcess w md)) name = lookupFile w md name"
  proof (cases "underlyingPath w name")
    case None
    then show ?thesis by (simp add: lookupFile_def)
  next
    case (Some target)
    with n have "Some target \<notin> (\<lambda>s. underlyingPath w (IgnoredSource_Name s)) ` set (SourcesToIgnore md)"
      by auto
    from removeLoop_frame[OF this, of md] Some w show ?thesis by (simp add: lookupFile_def)
  qed
next
  assume a: "(\<forall>s\<in>set (SourcesToIgnore md).
        lookupFile w md (IgnoredSource_Name s) \<noteq> None \<longrightarrow> \<not> Remove_err w (IgnoredSource_Name s)) \<and>
    \<not> Add_err w"
  let ?tree = "\<lambda>p. if Some p \<in> (\<lambda>s. underlyingPath w (IgnoredSource_Name s)) ` set (SourcesToIgnore md)
                    then None else Worktree md p"
  let ?md = "md\<lparr>Worktree := ?tree, Staged := Staged md ++ ?tree\<rparr>"
  from a have "removeLoop w md (SourcesToIgnore md) = Inr (md\<lparr>Worktree := ?tree\<rparr>)"
    by (intro removeLoop_ok) simp
  with a have r: "PostProcess w md = Inr ?md"
    by (simp add: PostProcess_def)
  have "\<forall>p. Worktree ?md p = ?tree p" by simp
  from lookupFile_removed[OF this]
  have "\<forall>name. lookupFile w ?md name =
                    (if \<exists>s\<in>set (SourcesToIgnore md).
                          underlyingPath w (IgnoredSource_Name s) = underlyingPath w name
                     then None else lookupFile w md name)"
    by blast
  with r show "\<exists>md'. PostProcess w md = Inr md' \<and>
             (\<forall>name. lookupFile w md' name =
                    (if \<exists>s\<in>set (SourcesToIgnore md).
                          underlyingPath w (IgnoredSource_Name s) = underlyingPath w name
                     then None else lookupFile w md name))"
    by blast
next
  assume a: "(\<forall>s\<in>set (SourcesToIgnore md). lookupFile w md (IgnoredSource_Name s) = None) \<and> \<not> Add_err w"
  let ?tree = "\<lambda>p. if Some p \<in> (\<lambda>s. underlyingPath w (IgnoredSource_Name s)) ` set (SourcesToIgnore md)
                    then None else Worktree md p"
  from a have "removeLoop w md (SourcesToIgnore md) = Inr (md\<lparr>Worktree := ?tree\<rparr>)"
    by (intro removeLoop_ok) simp
  moreover have "?tree = Worktree md"
  proof (intro ext)
    fix p
    show "?tree p = Worktree md p"
    proof (cases "Some p \<in> (\<lambda>s. underlyingPath w (IgnoredSource_Name s)) ` set (SourcesToIgnore md)")
      case True
      then obtain s where "s \<in> set (SourcesToIgnore md)" "underlyingPath w (IgnoredSource_Name s) = Some p"
        by auto
      with a have "Worktree md p = None" by (auto simp: lookupFile_def)
      with True show ?thesis by simp
    next
      case False
      then show ?thesis by simp
    qed
  qed
  ultimately show "PostProcess w md = Inr (md\<lparr>Staged := Staged md ++ Worktree md\<rparr>)"
    using a by (simp add: PostProcess_def)
qed

theorem PostProcess_removes_only_ignored_witness:
  "underlyingPath exampleWorld ''SOURCES/a.tar.gz'' = Some ''/SOURCES/a.tar.gz'' \<and>
   underlyingPath exampleWorld ''/SOURCES/b.tar.gz'' = Some ''/SOURCES/b.tar.gz'' \<and>
   underlyingPath exampleWorld ''bash.spec'' = Some ''/bash.spec'' \<and>
   underlyingPath exampleWorld ''/SOURCES/../SOURCES//a.tar.gz'' = Some ''/SOURCES/a.tar.gz'' \<and>
   lookupFile exampleWorld reconciledMd ''SOURCES/a.tar.gz'' = Some ''tarball'' \<and>
   lookupFile exampleWorld reconciledMd ''/SOURCES/b.tar.gz'' = None \<and>
   lookupFile exampleWorld (stateOf (PostProcess exampleWorld reconciledMd)) ''bash.spec'' =
     Some ''Name: bash'' \<and>
   \<not> Remove_err exampleWorld ''SOURCES/a.tar.gz'' \<and> \<not> Add_err exampleWorld \<and>
   (\<exists>md'. PostProcess exampleWorld reconciledMd = Inr md' \<and>
          lookupFile exampleWorld md' ''SOURCES/a.tar.gz'' = None \<and>
          lookupFile exampleWorld md' ''/SOURCES/../SOURCES//a.tar.gz'' = None \<and>
          lookupFile exampleWorld md' ''/SOURCES/b.tar.gz'' = None \<and>
          lookupFile exampleWorld md' ''bash.spec'' = Some ''Name: bash'' \<and>
          Worktree md' = [''/bash.spec'' \<mapsto> ''Name: bash'']) \<and>
   lookupFile (exampleWorld\<lparr>Remove_err := (\<lambda>path. True)\<rparr>) (reconciledMd\<lparr>Worktree := Map.empty\<rparr>)
     ''SOURCES/a.tar.gz'' = None \<and>
   PostProcess (exampleWorld\<lparr>Remove_err := (\<lambda>path. True)\<rparr>) (reconciledMd\<lparr>Worktree := Map.empty\<rparr>) =
     Inr (reconciledMd\<lparr>Worktree := Map.empty\<rparr>)"
proof -
  have u: "underlyingPath exampleWorld = memfsPath" by (simp add: exampleWorld_def)
  have p: "memfsPath ''SOURCES/a.tar.gz'' = Some ''/SOURCES/a.tar.gz''"
    "memfsPath ''/SOURCES/b.tar.gz'' = Some ''/SOURCES/b.tar.gz''"
    "memfsPath ''bash.spec'' = Some ''/bash.spec''"
    "memfsPath ''/SOURCES/../SOURCES//a.tar.gz'' = Some ''/SOURCES/a.tar.gz''"
    by code_simp+
  have l: "SourcesToIgnore reconciledMd =
             [\<lparr>IgnoredSource_Name = ''SOURCES/a.tar.gz'', HashFunction = ''sha256''\<rparr>,
              \<lparr>IgnoredSource_Name = ''/SOURCES/b.tar.gz'', HashFunction = ''sha256''\<rparr>]"
    by (simp add: reconciledMd_def exampleMd_def)
  have tree: "Worktree reconciledMd =
                [''/SOURCES/a.tar.gz'' \<mapsto> ''tarball'', ''/bash.spec'' \<mapsto> ''Name: bash'']"
    by (simp add: reconciledMd_def exampleMd_def)
  have staged: "Staged reconciledMd = Map.empty"
    by (simp add: reconciledMd_def exampleMd_def)
  have r: "\<not> Remove_err exampleWorld ''SOURCES/a.tar.gz''" "\<not> Add_err exampleWorld"
    by (simp_all add: exampleWorld_def)
  have f: "lookupFile exampleWorld reconciledMd ''SOURCES/a.tar.gz'' = Some ''tarball''"
    "lookupFile exampleWorld reconciledMd ''/SOURCES/b.tar.gz'' = None"
    "lookupFile exampleWorld reconciledMd ''bash.spec'' = Some ''Name: bash''"
    by (simp_all add: lookupFile_def u p tree)
  note t = PostProcess_removes_only_ignored[of reconciledMd exampleWorld]
  have "\<forall>s\<in>set (SourcesToIgnore reconciledMd).
          underlyingPath exampleWorld (IgnoredSource_Name s) \<noteq> underlyingPath exampleWorld ''bash.spec''"
    by (simp add: l u p)
  with t f(3) have 1: "lookupFile exampleWorld (stateOf (PostProcess exampleWorld reconciledMd)) ''bash.spec'' =
      Some ''Name: bash''"
    by simp
  have "\<forall>s\<in>set (SourcesToIgnore reconciledMd).
        lookupFile exampleWorld reconciledMd (IgnoredSource_Name s) \<noteq> None \<longrightarrow>
        \<not> Remove_err exampleWorld (IgnoredSource_Name s)"
    by (simp add: exampleWorld_def)
  with t r(2) obtain md' where md': "PostProcess exampleWorld reconciledMd = Inr md'"
    "\<forall>name. lookupFile exampleWorld md' name =
          (if \<exists>s\<in>set (SourcesToIgnore reconciledMd).
                underlyingPath exampleWorld (IgnoredSource_Name s) = underlyingPath exampleWorld name
           then None else lookupFile exampleWorld reconciledMd name)"
    by blast
  have "Worktree (stateOf (PostProcess exampleWorld reconciledMd)) = [''/bash.spec'' \<mapsto> ''Name: bash'']"
    by (intro ext) (simp add: PostProcess_def l tree u p exampleWorld_def)
  with md'(1) have k: "Worktree md' = [''/bash.spec'' \<mapsto> ''Name: bash'']" by simp
  from md'(2) have "lookupFile exampleWorld md' ''SOURCES/a.tar.gz'' = None \<and>
          lookupFile exampleWorld md' ''/SOURCES/../SOURCES//a.tar.gz'' = None \<and>
          lookupFile exampleWorld md' ''/SOURCES/b.tar.gz'' = None \<and>
          lookupFile exampleWorld md' ''bash.spec'' = Some ''Name: bash''"
    by (simp add: l u p f)
  with md'(1) k have 2: "\<exists>md'. PostProcess exampleWorld reconciledMd = Inr md' \<and>
          lookupFile exampleWorld md' ''SOURCES/a.tar.gz'' = None \<and>
          lookupFile exampleWorld md' ''/SOURCES/../SOURCES//a.tar.gz'' = None \<and>
          lookupFile exampleWorld md' ''/SOURCES/b.tar.gz'' = None \<and>
          lookupFile exampleWorld md' ''bash.spec'' = Some ''Name: bash'' \<and>
          Worktree md' = [''/bash.spec'' \<mapsto> ''Name: bash'']"
    by blast
  let ?md = "reconciledMd\<lparr>Worktree := Map.empty\<rparr>"
  let ?w = "exampleWorld\<lparr>Remove_err := (\<lambda>path. True)\<rparr>"
  have e: "lookupFile ?w ?md ''SOURCES/a.tar.gz'' = None"
    by (simp add: lookupFile_def split: option.splits)
  have "(\<forall>s\<in>set (SourcesToIgnore ?md). lookupFile ?w ?md (IgnoredSource_Name s) = None) \<and> \<not> Add_err ?w"
    by (simp add: exampleWorld_def lookupFile_def split: option.splits)
  with PostProcess_removes_only_ignored[of ?md ?w]
  have "PostProcess ?w ?md = Inr (?md\<lparr>Staged := Staged ?md ++ Worktree ?md\<rparr>)" by blast
  then have 3: "PostProcess ?w ?md = Inr ?md" by (simp add: staged)
  from u p have q: "underlyingPath exampleWorld ''SOURCES/a.tar.gz'' = Some ''/SOURCES/a.tar.gz''"
    "underlyingPath exampleWorld ''/SOURCES/b.tar.gz'' = Some ''/SOURCES/b.tar.gz''"
    "underlyingPath exampleWorld ''bash.spec'' = Some ''/bash.spec''"
    "underlyingPath exampleWorld ''/SOURCES/../SOURCES//a.tar.gz'' = Some ''/SOURCES/a.tar.gz''"
    by simp_all
  from q f(1,2) 1 r 2 e 3 show ?thesis by (intro conjI)
qed

section \<open>WriteSource: the tiers and the check of the digest\<close>

lemma sourceURL_inject: "sourceURL name b h = sourceURL name b h' \<longleftrightarrow> h = h'"
  by (simp add: sourceURL_def)

lemma acquire_cached:
  "BlobCache md H = Some cached \<Longrightarrow>
   acquire w pd b md H = Inr (cached, logf (''retrieving '' @ H @ '' from cache'') md)"
  by (simp add: acquire_def)

lemma quiet_refl: "BlobCache md H = Some cached \<Longrightarrow> quiet b H cached md md"
  by (simp add: quiet_def)

lemma quiet_trans:
  "quiet b H cached md md1 \<Longrightarrow> quiet b H cached md1 md2 \<Longrightarrow> quiet b H cached md md2"
  by (auto simp: quiet_def)

lemma download_quiet:
  assumes "BlobCache md H = Some cached" and "h \<noteq> H"
  shows "download w b md h = Inl (e, md') \<Longrightarrow> quiet b H cached md md'"
    and "download w b md h = Inr (body, md') \<Longrightarrow> quiet b H cached md md'"
  using assms
  by (auto simp: download_def Let_def logf_def quiet_def sourceURL_inject split: http_result.splits)

lemma acquire_quiet:
  assumes "BlobCache md H = Some cached"
  shows "acquire w pd b md h = Inl (e, md') \<Longrightarrow> quiet b H cached md md'"
    and "acquire w pd b md h = Inr (body, md') \<Longrightarrow> quiet b H cached md md'"
proof -
  let ?md1 = "md\<lparr>trace := trace md @ [BlobStorage_Read_call h]\<rparr>"
  have q1: "quiet b H cached md ?md1" if "h \<noteq> H"
    using assms that by (simp add: quiet_def)
  have c1: "BlobCache ?md1 H = Some cached" using assms by simp
  show "quiet b H cached md md'" if a: "acquire w pd b md h = Inl (e, md')"
  proof (cases "BlobCache md h")
    case (Some c)
    with a show ?thesis by (simp add: acquire_def)
  next
    case None
    with assms have ne: "h \<noteq> H" by auto
    from a None have "download w b ?md1 h = Inl (e, md')"
      by (auto simp: acquire_def Let_def split: if_splits sum.splits prod.splits)
    from download_quiet(1)[OF c1 ne this] q1[OF ne] show ?thesis
      using quiet_trans by blast
  qed
  show "quiet b H cached md md'" if a: "acquire w pd b md h = Inr (body, md')"
  proof (cases "BlobCache md h")
    case (Some c)
    with a assms show ?thesis by (auto simp: acquire_def logf_def quiet_def)
  next
    case None
    with assms have ne: "h \<noteq> H" by auto
    show ?thesis
    proof (cases "BlobStorage_Read pd h \<noteq> None \<and> \<not> NoStorageDownload pd")
      case True
      with a None ne assms show ?thesis
        by (auto simp: acquire_def Let_def logf_def quiet_def)
    next
      case False
      with a None obtain md2 where d: "download w b ?md1 h = Inr (body, md2)"
        and m: "md' = md2\<lparr>BlobCache := (BlobCache md2)(h \<mapsto> body)\<rparr>"
        by (auto simp: acquire_def Let_def split: sum.splits prod.splits)
      from download_quiet(2)[OF c1 ne d] q1[OF ne] have "quiet b H cached md md2"
        using quiet_trans by blast
      with m ne show ?thesis by (simp add: quiet_def)
    qed
  qed
qed

lemma materialize_quiet:
  assumes "BlobCache md H = Some cached"
  shows "quiet b H cached md (stateOf (materialize w pd b md h path))"
proof (cases "acquire w pd b md h")
  case (Inl x)
  then obtain e md' where "acquire w pd b md h = Inl (e, md')" by (cases x) auto
  with acquire_quiet(1)[OF assms this] show ?thesis by (simp add: materialize_def)
next
  case (Inr x)
  then obtain body md1 where a: "acquire w pd b md h = Inr (body, md1)" by (cases x) auto
  from acquire_quiet(2)[OF assms this] have "quiet b H cached md md1" .
  then show ?thesis using a
    by (auto simp: materialize_def Let_def quiet_def split: option.splits)
qed

lemma writeLine_quiet:
  assumes "BlobCache md H = Some cached"
  shows "quiet b H cached md (stateOf (writeLine w pd b md line))"
proof (cases "parseLine line")
  case (Inl e)
  with assms show ?thesis by (simp add: writeLine_def quiet_refl)
next
  case (Inr x)
  show ?thesis
  proof (cases x)
    case None
    with Inr assms show ?thesis by (simp add: writeLine_def quiet_refl)
  next
    case (Some hp)
    with Inr materialize_quiet[OF assms] show ?thesis
      by (cases hp) (simp add: writeLine_def)
  qed
qed

lemma writeLines_quiet:
  "BlobCache md H = Some cached \<Longrightarrow> quiet b H cached md (stateOf (writeLines w pd b md lines))"
proof (induction lines arbitrary: md)
  case Nil
  then show ?case by (simp add: quiet_refl)
next
  case (Cons line lines)
  from writeLine_quiet[OF Cons.prems] have q: "quiet b H cached md (stateOf (writeLine w pd b md line))" .
  show ?case
  proof (cases "writeLine w pd b md line")
    case (Inl x)
    with q show ?thesis by simp
  next
    case (Inr md1)
    with q have q1: "quiet b H cached md md1" by simp
    then have "BlobCache md1 H = Some cached" by (simp add: quiet_def)
    from Cons.IH[OF this] have "quiet b H cached md1 (stateOf (writeLines w pd b md1 lines))" .
    from quiet_trans[OF q1 this] Inr show ?thesis by simp
  qed
qed


text \<open>
  Claim C4. When the cache holds bytes for the hash \<open>H\<close>, \<open>acquire\<close> returns exactly
  those bytes and changes nothing but the log, to which it adds one line: the blob
  store is not read, no request is sent, the cache is not written. An entry that is
  materialized from them gets those bytes as the file that its path names. Over the whole loop, from a
  \<open>ModeData\<close> whose cache holds \<open>H\<close>, the entry of \<open>H\<close> stays as it is and the trace
  gains neither a read of the blob store for \<open>H\<close> nor a GET of the origin URL of \<open>H\<close>,
  whether the loop ends or aborts.
\<close>

theorem acquire_cache_hit:
  assumes "BlobCache md H = Some cached"
  shows "acquire w pd branchName md H =
           Inr (cached, md\<lparr>trace := trace md @ [Log (''retrieving '' @ H @ '' from cache'')]\<rparr>) \<and>
         (\<forall>md'. materialize w pd branchName md H path = Inr md' \<longrightarrow>
                lookupFile w md' path = Some cached \<and> BlobCache md' = BlobCache md) \<and>
         BlobCache (stateOf (writeLines w pd branchName md fileContent)) H = Some cached \<and>
         (\<exists>new. trace (stateOf (writeLines w pd branchName md fileContent)) = trace md @ new \<and>
                BlobStorage_Read_call H \<notin> set new \<and>
                Client_Do (sourceURL (RpmFile_Name md) branchName H) \<notin> set new)"
proof (intro conjI allI impI)
  show a: "acquire w pd branchName md H =
           Inr (cached, md\<lparr>trace := trace md @ [Log (''retrieving '' @ H @ '' from cache'')]\<rparr>)"
    using assms by (simp add: acquire_cached logf_def)
  fix md' assume "materialize w pd branchName md H path = Inr md'"
  with a show "lookupFile w md' path = Some cached" and "BlobCache md' = BlobCache md"
    by (auto simp: materialize_def lookupFile_def Create_def Let_def split: option.splits if_splits)
next
  from writeLines_quiet[OF assms, of branchName w pd fileContent]
  show "BlobCache (stateOf (writeLines w pd branchName md fileContent)) H = Some cached"
    and "\<exists>new. trace (stateOf (writeLines w pd branchName md fileContent)) = trace md @ new \<and>
                BlobStorage_Read_call H \<notin> set new \<and>
                Client_Do (sourceURL (RpmFile_Name md) branchName H) \<notin> set new"
    by (simp_all add: quiet_def)
qed


theorem acquire_cache_hit_witness:
  "BlobCache cachedMd ''deadbeef'' = Some ''tarball'' \<and>
   acquire exampleWorld noDownloadPd ''c8'' cachedMd ''deadbeef'' =
     Inr (''tarball'', cachedMd\<lparr>trace := [Log ''retrieving deadbeef from cache'']\<rparr>) \<and>
   BlobCache (stateOf (writeLines exampleWorld noDownloadPd ''c8'' cachedMd
                [''deadbeef /SOURCES/a.tar.gz'', ''c0ffee /SOURCES/b.tar.gz''])) ''deadbeef'' =
     Some ''tarball'' \<and>
   trace (stateOf (writeLines exampleWorld noDownloadPd ''c8'' cachedMd
                [''deadbeef /SOURCES/a.tar.gz'', ''c0ffee /SOURCES/b.tar.gz''])) =
     [Log ''retrieving deadbeef from cache'', BlobStorage_Read_call ''c0ffee'',
      Log ''downloading https://git.centos.org/sources/bash/c8/c0ffee'',
      Client_Do ''https://git.centos.org/sources/bash/c8/c0ffee''] \<and>
   Worktree (stateOf (writeLines exampleWorld noDownloadPd ''c8'' cachedMd
                [''deadbeef /SOURCES/a.tar.gz''])) ''/SOURCES/a.tar.gz'' = Some ''tarball'' \<and>
   (\<exists>md'. materialize exampleWorld noDownloadPd ''c8'' cachedMd ''deadbeef'' ''/SOURCES/a.tar.gz'' =
            Inr md' \<and>
          lookupFile exampleWorld md' ''/SOURCES/a.tar.gz'' = Some ''tarball'' \<and> BlobCache md' = BlobCache cachedMd)"
proof -
  have c: "BlobCache cachedMd ''deadbeef'' = Some ''tarball''"
    by (simp add: cachedMd_def)
  have t: "trace cachedMd = []" by (simp add: cachedMd_def exampleMd_def)
  note th = acquire_cache_hit[OF c, of exampleWorld noDownloadPd "''c8''" "''/SOURCES/a.tar.gz''"
      "[''deadbeef /SOURCES/a.tar.gz'', ''c0ffee /SOURCES/b.tar.gz'']"]
  from th have 1: "acquire exampleWorld noDownloadPd ''c8'' cachedMd ''deadbeef'' =
     Inr (''tarball'', cachedMd\<lparr>trace := [Log ''retrieving deadbeef from cache'']\<rparr>)"
    by (simp add: t)
  from th have 2: "BlobCache (stateOf (writeLines exampleWorld noDownloadPd ''c8'' cachedMd
                [''deadbeef /SOURCES/a.tar.gz'', ''c0ffee /SOURCES/b.tar.gz''])) ''deadbeef'' =
     Some ''tarball''"
    by blast
  have 3: "trace (stateOf (writeLines exampleWorld noDownloadPd ''c8'' cachedMd
                [''deadbeef /SOURCES/a.tar.gz'', ''c0ffee /SOURCES/b.tar.gz''])) =
     [Log ''retrieving deadbeef from cache'', BlobStorage_Read_call ''c0ffee'',
      Log ''downloading https://git.centos.org/sources/bash/c8/c0ffee'',
      Client_Do ''https://git.centos.org/sources/bash/c8/c0ffee'']"
    by code_simp
  have 4: "Worktree (stateOf (writeLines exampleWorld noDownloadPd ''c8'' cachedMd
                [''deadbeef /SOURCES/a.tar.gz''])) ''/SOURCES/a.tar.gz'' = Some ''tarball''"
    by code_simp
  have "\<not> isl (materialize exampleWorld noDownloadPd ''c8'' cachedMd ''deadbeef'' ''/SOURCES/a.tar.gz'')"
    by code_simp
  then obtain md' where m: "materialize exampleWorld noDownloadPd ''c8'' cachedMd ''deadbeef'' ''/SOURCES/a.tar.gz'' = Inr md'"
    by (cases "materialize exampleWorld noDownloadPd ''c8'' cachedMd ''deadbeef'' ''/SOURCES/a.tar.gz''") auto
  with th have "lookupFile exampleWorld md' ''/SOURCES/a.tar.gz'' = Some ''tarball'' \<and> BlobCache md' = BlobCache cachedMd"
    by blast
  with m have 5: "\<exists>md'. materialize exampleWorld noDownloadPd ''c8'' cachedMd ''deadbeef'' ''/SOURCES/a.tar.gz'' =
            Inr md' \<and>
          lookupFile exampleWorld md' ''/SOURCES/a.tar.gz'' = Some ''tarball'' \<and> BlobCache md' = BlobCache cachedMd"
    by blast
  from c 1 2 3 4 5 show ?thesis by (intro conjI)
qed

lemma download_Inr:
  "download w b md h = Inr (body, md1) \<Longrightarrow>
   Worktree md1 = Worktree md \<and> SourcesToIgnore md1 = SourcesToIgnore md \<and>
   BlobCache md1 = BlobCache md"
  by (auto simp: download_def Let_def logf_def split: http_result.splits)

lemma acquire_Inr:
  assumes "acquire w pd b md h = Inr (body, md1)"
  shows "Worktree md1 = Worktree md" and "SourcesToIgnore md1 = SourcesToIgnore md"
    and "BlobCache md1 h = Some body"
proof -
  have "Worktree md1 = Worktree md \<and> SourcesToIgnore md1 = SourcesToIgnore md \<and>
        BlobCache md1 h = Some body"
  proof (cases "BlobCache md h")
    case (Some c)
    with assms show ?thesis by (auto simp: acquire_def logf_def)
  next
    case None
    show ?thesis
    proof (cases "BlobStorage_Read pd h \<noteq> None \<and> \<not> NoStorageDownload pd")
      case True
      with assms None show ?thesis by (auto simp: acquire_def Let_def logf_def)
    next
      case False
      with assms None obtain md2 where
        d: "download w b (md\<lparr>trace := trace md @ [BlobStorage_Read_call h]\<rparr>) h = Inr (body, md2)"
        and m: "md1 = md2\<lparr>BlobCache := (BlobCache md2)(h \<mapsto> body)\<rparr>"
        by (auto simp: acquire_def Let_def split: sum.splits prod.splits)
      from download_Inr[OF d] m show ?thesis by simp
    qed
  qed
  then show "Worktree md1 = Worktree md" and "SourcesToIgnore md1 = SourcesToIgnore md"
    and "BlobCache md1 h = Some body" by simp_all
qed

text \<open>
  Claim C1, as stated, fails: the origin serves bytes that \<open>CompareHash\<close> rejects for
  the declared checksum, and when the run aborts the target file, absent before, has
  been created (empty) and the cache, empty before, holds the rejected bytes.
\<close>

theorem writeLine_mismatch_counterexample:
  "CompareHash exampleWorld ''corrupt'' ''c0ffee'' = None \<and>
   Worktree exampleMd ''/SOURCES/b.tar.gz'' = None \<and> BlobCache exampleMd ''c0ffee'' = None \<and>
   writeLine exampleWorld examplePd ''c8'' exampleMd ''c0ffee /SOURCES/b.tar.gz'' =
     Inl (Fatal ''checksum in metadata does not match dist-git file'',
          stateOf (writeLine exampleWorld examplePd ''c8'' exampleMd ''c0ffee /SOURCES/b.tar.gz'')) \<and>
   Worktree (stateOf (writeLine exampleWorld examplePd ''c8'' exampleMd ''c0ffee /SOURCES/b.tar.gz''))
     ''/SOURCES/b.tar.gz'' = Some [] \<and>
   BlobCache (stateOf (writeLine exampleWorld examplePd ''c8'' exampleMd ''c0ffee /SOURCES/b.tar.gz''))
     ''c0ffee'' = Some ''corrupt''"
proof -
  have "isl (writeLine exampleWorld examplePd ''c8'' exampleMd ''c0ffee /SOURCES/b.tar.gz'') \<and>
        fst (projl (writeLine exampleWorld examplePd ''c8'' exampleMd ''c0ffee /SOURCES/b.tar.gz'')) =
          Fatal ''checksum in metadata does not match dist-git file''"
    by code_simp
  then have 1: "writeLine exampleWorld examplePd ''c8'' exampleMd ''c0ffee /SOURCES/b.tar.gz'' =
     Inl (Fatal ''checksum in metadata does not match dist-git file'',
          stateOf (writeLine exampleWorld examplePd ''c8'' exampleMd ''c0ffee /SOURCES/b.tar.gz''))"
    by (cases "writeLine exampleWorld examplePd ''c8'' exampleMd ''c0ffee /SOURCES/b.tar.gz''") auto
  have 2: "CompareHash exampleWorld ''corrupt'' ''c0ffee'' = None \<and>
   Worktree exampleMd ''/SOURCES/b.tar.gz'' = None \<and> BlobCache exampleMd ''c0ffee'' = None"
    by (simp add: exampleWorld_def exampleMd_def)
  have 3: "Worktree (stateOf (writeLine exampleWorld examplePd ''c8'' exampleMd ''c0ffee /SOURCES/b.tar.gz''))
     ''/SOURCES/b.tar.gz'' = Some [] \<and>
   BlobCache (stateOf (writeLine exampleWorld examplePd ''c8'' exampleMd ''c0ffee /SOURCES/b.tar.gz''))
     ''c0ffee'' = Some ''corrupt''"
    by code_simp
  from 1 2 3 show ?thesis by blast
qed

text \<open>
  Claim C1, amended. When \<open>CompareHash\<close> rejects the acquired bytes for the declared
  hash, the entry aborts the run with a fatal error, and the lines after it are not
  processed. At the abort none of the bytes has been written to the target file: the
  tree is as before, or differs only in the file that the path names, created empty. No
  \<open>IgnoredSource\<close> has been recorded. The cache holds the bytes under the hash.
\<close>

theorem materialize_mismatch_aborts:
  assumes "acquire w pd branchName md hash = Inr (body, md1)"
    and "CompareHash w body hash = None"
  shows "(\<exists>msg md'. materialize w pd branchName md hash path = Inl (Fatal msg, md') \<and>
            (Worktree md' = Worktree md \<or>
             (\<exists>file. Create w path = Some file \<and> Worktree md' = (Worktree md)(file \<mapsto> []))) \<and>
            SourcesToIgnore md' = SourcesToIgnore md \<and> BlobCache md' hash = Some body) \<and>
         (\<forall>file. Create w path = Some file \<longrightarrow>
            materialize w pd branchName md hash path =
              Inl (Fatal ''checksum in metadata does not match dist-git file'',
                   md1\<lparr>Worktree := (Worktree md)(file \<mapsto> [])\<rparr>)) \<and>
         (\<forall>line fileContent. parseLine line = Inr (Some (hash, path)) \<longrightarrow>
            writeLines w pd branchName md (line # fileContent) =
              materialize w pd branchName md hash path)"
proof (intro conjI impI allI)
  note f = acquire_Inr[OF assms(1)]
  show "\<exists>msg md'. materialize w pd branchName md hash path = Inl (Fatal msg, md') \<and>
            (Worktree md' = Worktree md \<or>
             (\<exists>file. Create w path = Some file \<and> Worktree md' = (Worktree md)(file \<mapsto> []))) \<and>
            SourcesToIgnore md' = SourcesToIgnore md \<and> BlobCache md' hash = Some body"
    using assms f by (cases "Create w path") (simp_all add: materialize_def)
  show "materialize w pd branchName md hash path =
              Inl (Fatal ''checksum in metadata does not match dist-git file'',
                   md1\<lparr>Worktree := (Worktree md)(target \<mapsto> [])\<rparr>)"
    if "Create w path = Some target" for target
    using assms f that by (simp add: materialize_def)
  show "writeLines w pd branchName md (line # fileContent) =
              materialize w pd branchName md hash path"
    if p: "parseLine line = Inr (Some (hash, path))" for line fileContent
  proof -
    from assms f obtain e md' where "materialize w pd branchName md hash path = Inl (e, md')"
      by (cases "Create w path") (simp_all add: materialize_def)
    with p show ?thesis by (simp add: writeLine_def)
  qed
qed

theorem materialize_mismatch_aborts_witness:
  "(\<exists>md1. acquire exampleWorld examplePd ''c8'' exampleMd ''c0ffee'' = Inr (''corrupt'', md1)) \<and>
   CompareHash exampleWorld ''corrupt'' ''c0ffee'' = None \<and>
   Create exampleWorld ''/SOURCES/b.tar.gz'' = Some ''/SOURCES/b.tar.gz'' \<and>
   parseLine ''c0ffee /SOURCES/b.tar.gz'' = Inr (Some (''c0ffee'', ''/SOURCES/b.tar.gz'')) \<and>
   (\<exists>md'. materialize exampleWorld examplePd ''c8'' exampleMd ''c0ffee'' ''/SOURCES/b.tar.gz'' =
            Inl (Fatal ''checksum in metadata does not match dist-git file'', md') \<and>
          Worktree md' ''/SOURCES/b.tar.gz'' = Some [] \<and> SourcesToIgnore md' = [] \<and>
          BlobCache md' ''c0ffee'' = Some ''corrupt'') \<and>
   writeLines exampleWorld examplePd ''c8'' exampleMd
       [''c0ffee /SOURCES/b.tar.gz'', ''deadbeef /SOURCES/a.tar.gz''] =
     materialize exampleWorld examplePd ''c8'' exampleMd ''c0ffee'' ''/SOURCES/b.tar.gz''"
proof -
  have "\<not> isl (acquire exampleWorld examplePd ''c8'' exampleMd ''c0ffee'') \<and>
        fst (projr (acquire exampleWorld examplePd ''c8'' exampleMd ''c0ffee'')) = ''corrupt''"
    by code_simp
  then obtain md1 where a: "acquire exampleWorld examplePd ''c8'' exampleMd ''c0ffee'' = Inr (''corrupt'', md1)"
    by (cases "acquire exampleWorld examplePd ''c8'' exampleMd ''c0ffee''") auto
  have c: "CompareHash exampleWorld ''corrupt'' ''c0ffee'' = None"
    by (simp add: exampleWorld_def)
  have n: "Create exampleWorld ''/SOURCES/b.tar.gz'' = Some ''/SOURCES/b.tar.gz''"
    by code_simp
  have p: "parseLine ''c0ffee /SOURCES/b.tar.gz'' = Inr (Some (''c0ffee'', ''/SOURCES/b.tar.gz''))"
    by code_simp
  have s: "SourcesToIgnore exampleMd = []" "Worktree exampleMd = Map.empty"
    by (simp_all add: exampleMd_def)
  note th = materialize_mismatch_aborts[OF a c, of "''/SOURCES/b.tar.gz''"]
  from th n have m: "materialize exampleWorld examplePd ''c8'' exampleMd ''c0ffee'' ''/SOURCES/b.tar.gz'' =
              Inl (Fatal ''checksum in metadata does not match dist-git file'',
                   md1\<lparr>Worktree := (Worktree exampleMd)(''/SOURCES/b.tar.gz'' \<mapsto> [])\<rparr>)"
    by blast
  from th obtain msg md' where
    "materialize exampleWorld examplePd ''c8'' exampleMd ''c0ffee'' ''/SOURCES/b.tar.gz'' = Inl (Fatal msg, md')"
    "SourcesToIgnore md' = SourcesToIgnore exampleMd" "BlobCache md' ''c0ffee'' = Some ''corrupt''"
    by blast
  with m s have 1: "\<exists>md'. materialize exampleWorld examplePd ''c8'' exampleMd ''c0ffee'' ''/SOURCES/b.tar.gz'' =
            Inl (Fatal ''checksum in metadata does not match dist-git file'', md') \<and>
          Worktree md' ''/SOURCES/b.tar.gz'' = Some [] \<and> SourcesToIgnore md' = [] \<and>
          BlobCache md' ''c0ffee'' = Some ''corrupt''"
    by auto
  from th p have 2: "writeLines exampleWorld examplePd ''c8'' exampleMd
       [''c0ffee /SOURCES/b.tar.gz'', ''deadbeef /SOURCES/a.tar.gz''] =
     materialize exampleWorld examplePd ''c8'' exampleMd ''c0ffee'' ''/SOURCES/b.tar.gz''"
    by blast
  from a have 0: "\<exists>md1. acquire exampleWorld examplePd ''c8'' exampleMd ''c0ffee'' = Inr (''corrupt'', md1)"
    by blast
  from 0 c n p 1 2 show ?thesis by (intro conjI)
qed

lemma acquire_miss_reads_store:
  assumes "BlobCache md hash = None"
  shows "\<exists>later. trace (case acquire w pd branchName md hash of Inl (e, md') \<Rightarrow> md' | Inr (body, md') \<Rightarrow> md') =
           trace md @ BlobStorage_Read_call hash # later"
  using assms
  by (auto simp: acquire_def download_def Let_def logf_def split: http_result.splits)

text \<open>
  Claim C3, on the code. The flag \<open>NoStorageDownload\<close> is set, the cache is empty and
  the metadata file has one entry. \<open>WriteSource\<close> calls \<open>pd.BlobStorage.Read\<close> for
  the hash before it looks at the flag, drops what the store returns and goes on to
  the origin.
\<close>

theorem WriteSource_noDownload_reads_blob_store:
  "NoStorageDownload noDownloadPd \<and>
   lookupFile exampleWorld metadataMd ''.bash.metadata'' =
     Some (''deadbeef /SOURCES/a.tar.gz'' @ [CHR 0x0A]) \<and>
   BlobCache metadataMd ''deadbeef'' = None \<and>
   trace (stateOf (WriteSource exampleWorld noDownloadPd metadataMd)) =
     [Log ''checking out upstream refspec +refs/heads/c8:refs/heads/c8'',
      BlobStorage_Read_call ''deadbeef'',
      Log ''downloading https://git.centos.org/sources/bash/c8/deadbeef'',
      Client_Do ''https://git.centos.org/sources/bash/c8/deadbeef'']"
  by code_simp

end
